theory Spec2Isabelle
  imports Complex_Main
begin

section \<open>JavaScript values\<close>

text \<open>
  The server handles JSON data of the upstream provider without any static type, so the
  model keeps the values dynamic. A JavaScript number is a double: \<open>NaN\<close>, one of the
  two infinities, or a real number. The negative zero is identified with zero: the
  program divides by no zero, and its conversions and comparisons do not tell the two
  zeros apart. The results of the arithmetic are rounded to doubles (see below).
\<close>

datatype jsnum = NaN | Fin real | PInf | NInf

datatype jsval =
    JUndefined
  | JNull
  | JBool bool
  | JNum jsnum
  | JStr string
  | JArr "jsval list"
  | JObj "(string \<times> jsval) list"

text \<open>Truthiness, as \<open>!x\<close>, \<open>x || y\<close>, \<open>x && y\<close> and \<open>x ? a : b\<close> test it.\<close>

fun truthy :: "jsval \<Rightarrow> bool" where
  "truthy JUndefined = False"
| "truthy JNull = False"
| "truthy (JBool b) = b"
| "truthy (JNum NaN) = False"
| "truthy (JNum (Fin r)) = (r \<noteq> 0)"
| "truthy (JNum PInf) = True"
| "truthy (JNum NInf) = True"
| "truthy (JStr s) = (s \<noteq> [])"
| "truthy (JArr xs) = True"
| "truthy (JObj ps) = True"

text \<open>\<open>x || y\<close> on values.\<close>

definition js_or :: "jsval \<Rightarrow> jsval \<Rightarrow> jsval" where
  "js_or x y = (if truthy x then x else y)"

text \<open>
  Reading a property of a value that is neither \<open>null\<close> nor \<open>undefined\<close>. A JSON
  object has its own properties only; an array and a string have a \<open>length\<close>. (The
  source reads properties by the fixed names of the provider's schema and \<open>length\<close>;
  none of them is an index or a method of a prototype.)
\<close>

fun getprop :: "jsval \<Rightarrow> string \<Rightarrow> jsval" where
  "getprop (JObj ps) k = (case map_of ps k of None \<Rightarrow> JUndefined | Some v \<Rightarrow> v)"
| "getprop (JArr xs) k = (if k = ''length'' then JNum (Fin (real (length xs))) else JUndefined)"
| "getprop (JStr s) k = (if k = ''length'' then JNum (Fin (real (length s))) else JUndefined)"
| "getprop v k = JUndefined"

definition nullish :: "jsval \<Rightarrow> bool" where
  "nullish v = (v = JUndefined \<or> v = JNull)"

text \<open>\<open>v?.k\<close>, and a chain \<open>v?.k1?.k2\<close> of them.\<close>

definition opt :: "jsval \<Rightarrow> string \<Rightarrow> jsval" where
  "opt v k = (if nullish v then JUndefined else getprop v k)"

definition path :: "jsval \<Rightarrow> string list \<Rightarrow> jsval" where
  "path v ks = foldl opt v ks"

text \<open>
  Exceptions. A rejected upstream call carries the message of its error; a
  \<open>TypeError\<close> and a \<open>RangeError\<close> are raised by the engine (the text of their
  messages is not modelled). A computation that may throw returns \<open>Inl\<close> of the
  exception or \<open>Inr\<close> of its value; \<open>andThen\<close> runs a second one on the value of a
  first.
\<close>

datatype exn = NetError string | TypeError | RangeError

fun message :: "exn \<Rightarrow> jsval" where
  "message (NetError m) = JStr m"
| "message TypeError = JStr ''TypeError''"
| "message RangeError = JStr ''RangeError''"

definition andThen :: "exn + 'a \<Rightarrow> ('a \<Rightarrow> exn + 'b) \<Rightarrow> exn + 'b" where
  "andThen m f = (case m of Inl e \<Rightarrow> Inl e | Inr x \<Rightarrow> f x)"

text \<open>\<open>v.k\<close>: reading a property of \<open>null\<close> or \<open>undefined\<close> throws.\<close>

definition dot :: "jsval \<Rightarrow> string \<Rightarrow> exn + jsval" where
  "dot v k = (if nullish v then Inl TypeError else Inr (getprop v k))"

text \<open>
  The built-in functions whose results are defined by the engine and its locale data,
  or by a grammar far from this program, are parameters of the model:
  \<open>Number(s)\<close> on a string, \<open>String(n)\<close> on a number, \<open>a.localeCompare(b)\<close>, the
  time value of \<open>new Date(s)\<close> (\<open>None\<close> for an invalid date), the rounding \<open>fl\<close> of
  a real number to a double (without a bound on the exponent: the overflow is handled
  apart), \<open>Math.exp(x)\<close>, \<open>Math.pow(x, k)\<close> for a count \<open>k\<close>, and what
  \<open>arr.sort(cmp)\<close> does when \<open>cmp\<close> throws on some pairs of elements of \<open>arr\<close>
  (it depends on the pairs that the algorithm of the engine compares).
\<close>

record builtins =
  StringToNumber :: "string \<Rightarrow> jsnum"
  NumberToString :: "jsnum \<Rightarrow> string"
  localeCompare :: "string \<Rightarrow> string \<Rightarrow> int"
  Date_parse :: "string \<Rightarrow> int option"
  fl :: "real \<Rightarrow> real"
  Math_exp :: "jsnum \<Rightarrow> jsnum"
  Math_pow :: "jsnum \<Rightarrow> nat \<Rightarrow> jsnum"
  sort_abrupt :: "jsval list \<Rightarrow> exn + jsval list"

text \<open>
  \<open>String(v)\<close>, also the conversion of an operand of \<open>+\<close> with a string, of a
  value in a template literal and of a property key. An array joins its elements with
  commas, \<open>null\<close> and \<open>undefined\<close> elements printing as nothing. A JSON object prints
  as \<open>[object Object]\<close> through the \<open>toString\<close> it inherits; when it has a property
  \<open>toString\<close> of its own, whose value is no function, the conversion throws a
  \<open>TypeError\<close> (the inherited \<open>valueOf\<close> returns the object itself).
\<close>

fun join_comma :: "(exn + string) list \<Rightarrow> exn + string" where
  "join_comma [] = Inr []"
| "join_comma [r] = r"
| "join_comma (r # s # rs) =
     andThen r (\<lambda>a. andThen (join_comma (s # rs)) (\<lambda>b. Inr (a @ '','' @ b)))"

fun toStr :: "builtins \<Rightarrow> jsval \<Rightarrow> exn + string" where
  "toStr B JUndefined = Inr ''undefined''"
| "toStr B JNull = Inr ''null''"
| "toStr B (JBool b) = Inr (if b then ''true'' else ''false'')"
| "toStr B (JNum n) = Inr (NumberToString B n)"
| "toStr B (JStr s) = Inr s"
| "toStr B (JArr xs) =
     join_comma (map (\<lambda>x. if x = JUndefined \<or> x = JNull then Inr [] else toStr B x) xs)"
| "toStr B (JObj ps) =
     (if ''toString'' \<in> set (map fst ps) then Inl TypeError else Inr ''[object Object]'')"

text \<open>\<open>Number(v)\<close>. An array and an object are converted through their strings.\<close>

fun Number :: "builtins \<Rightarrow> jsval \<Rightarrow> exn + jsnum" where
  "Number B JUndefined = Inr NaN"
| "Number B JNull = Inr (Fin 0)"
| "Number B (JBool b) = Inr (Fin (if b then 1 else 0))"
| "Number B (JNum n) = Inr n"
| "Number B (JStr s) = Inr (StringToNumber B s)"
| "Number B (JArr xs) = andThen (toStr B (JArr xs)) (\<lambda>s. Inr (StringToNumber B s))"
| "Number B (JObj ps) = andThen (toStr B (JObj ps)) (\<lambda>s. Inr NaN)"

text \<open>\<open>a === b\<close> on two numbers: \<open>NaN\<close> equals nothing.\<close>

fun num_eq :: "jsnum \<Rightarrow> jsnum \<Rightarrow> bool" where
  "num_eq NaN b = False"
| "num_eq a NaN = False"
| "num_eq a b = (a = b)"

text \<open>
  The elements \<open>for (const x of v)\<close> runs through: those of an array, the characters
  of a string; any other value is not iterable. \<open>v.filter(...)\<close> and \<open>v.map(...)\<close>
  exist on arrays only.
\<close>

fun iterate :: "jsval \<Rightarrow> exn + jsval list" where
  "iterate (JArr xs) = Inr xs"
| "iterate (JStr s) = Inr (map (\<lambda>c. JStr [c]) s)"
| "iterate v = Inl TypeError"

fun elements :: "jsval \<Rightarrow> exn + jsval list" where
  "elements (JArr xs) = Inr xs"
| "elements v = Inl TypeError"

text \<open>\<open>v?.[0]\<close>\<close>

fun index0 :: "jsval \<Rightarrow> jsval" where
  "index0 (JArr xs) = (case xs of [] \<Rightarrow> JUndefined | x # _ \<Rightarrow> x)"
| "index0 (JStr s) = (case s of [] \<Rightarrow> JUndefined | c # _ \<Rightarrow> JStr [c])"
| "index0 (JObj ps) = (case map_of ps ''0'' of None \<Rightarrow> JUndefined | Some v \<Rightarrow> v)"
| "index0 v = JUndefined"

text \<open>
  \<open>arr.sort(cmp)\<close> is a stable sort; with a consistent comparator its result is the
  one of the insertion sort below.
\<close>

fun insort_by :: "('a \<Rightarrow> 'a \<Rightarrow> int) \<Rightarrow> 'a \<Rightarrow> 'a list \<Rightarrow> 'a list" where
  "insort_by cmp x [] = [x]"
| "insort_by cmp x (y # ys) = (if cmp x y \<le> 0 then x # y # ys else y # insort_by cmp x ys)"

definition Array_sort :: "('a \<Rightarrow> 'a \<Rightarrow> int) \<Rightarrow> 'a list \<Rightarrow> 'a list" where
  "Array_sort cmp xs = foldr (insort_by cmp) xs []"

text \<open>The answers of a handler: \<open>res.json(x)\<close> and \<open>res.status(n).json(x)\<close>.\<close>

record response =
  status :: nat
  body :: jsval

definition json :: "jsval \<Rightarrow> response" where
  "json x = \<lparr> status = 200, body = x \<rparr>"

definition failed :: "string \<Rightarrow> exn \<Rightarrow> response" where
  "failed tag e = \<lparr> status = 500, body = JObj [(''error'', JStr tag), (''detail'', message e)] \<rparr>"

section \<open>Arithmetic of doubles\<close>

text \<open>
  The sum, the difference, the product and the quotient of two doubles are the exact
  results rounded to the nearest double; a result of size \<open>2^1024 - 2^970\<close> or more
  rounds to an infinity. The operations on \<open>NaN\<close> and the infinities follow IEEE 754.
\<close>

definition overflow_threshold :: real where
  "overflow_threshold = 2 ^ 1024 - 2 ^ 970"

definition dbl :: "builtins \<Rightarrow> real \<Rightarrow> jsnum" where
  "dbl B x = (if overflow_threshold \<le> x then PInf
              else if x \<le> - overflow_threshold then NInf
              else Fin (fl B x))"

fun add :: "builtins \<Rightarrow> jsnum \<Rightarrow> jsnum \<Rightarrow> jsnum" where
  "add B (Fin x) (Fin y) = dbl B (x + y)"
| "add B NaN b = NaN"
| "add B a NaN = NaN"
| "add B PInf NInf = NaN"
| "add B NInf PInf = NaN"
| "add B PInf b = PInf"
| "add B NInf b = NInf"
| "add B a PInf = PInf"
| "add B a NInf = NInf"

fun neg :: "jsnum \<Rightarrow> jsnum" where
  "neg NaN = NaN"
| "neg (Fin x) = Fin (- x)"
| "neg PInf = NInf"
| "neg NInf = PInf"

fun sub :: "builtins \<Rightarrow> jsnum \<Rightarrow> jsnum \<Rightarrow> jsnum" where
  "sub B (Fin x) (Fin y) = dbl B (x - y)"
| "sub B a b = add B a (neg b)"

fun mul :: "builtins \<Rightarrow> jsnum \<Rightarrow> jsnum \<Rightarrow> jsnum" where
  "mul B (Fin x) (Fin y) = dbl B (x * y)"
| "mul B NaN b = NaN"
| "mul B a NaN = NaN"
| "mul B (Fin x) b = (if x = 0 then NaN else if (0 < x) = (b = PInf) then PInf else NInf)"
| "mul B a (Fin y) = (if y = 0 then NaN else if (0 < y) = (a = PInf) then PInf else NInf)"
| "mul B a b = (if a = b then PInf else NInf)"

fun divd :: "builtins \<Rightarrow> jsnum \<Rightarrow> jsnum \<Rightarrow> jsnum" where
  "divd B (Fin x) (Fin y) =
     (if y = 0 then (if x = 0 then NaN else if 0 < x then PInf else NInf) else dbl B (x / y))"
| "divd B NaN b = NaN"
| "divd B a NaN = NaN"
| "divd B (Fin x) b = Fin 0"
| "divd B a (Fin y) = (if (0 \<le> y) = (a = PInf) then PInf else NInf)"
| "divd B a b = NaN"

text \<open>\<open>a <= b\<close> and \<open>a < b\<close> on two numbers, and \<open>Math.max(a, b)\<close>.\<close>

fun js_le :: "jsnum \<Rightarrow> jsnum \<Rightarrow> bool" where
  "js_le NaN b = False"
| "js_le a NaN = False"
| "js_le (Fin x) (Fin y) = (x \<le> y)"
| "js_le NInf b = True"
| "js_le a PInf = True"
| "js_le a b = False"

definition js_lt :: "jsnum \<Rightarrow> jsnum \<Rightarrow> bool" where
  "js_lt a b = (js_le a b \<and> a \<noteq> b)"

fun Math_max :: "jsnum \<Rightarrow> jsnum \<Rightarrow> jsnum" where
  "Math_max NaN b = NaN"
| "Math_max a NaN = NaN"
| "Math_max a b = (if js_le a b then b else a)"

text \<open>
  A numeric literal with a fraction (\<open>1.2\<close>, \<open>0.08\<close>) is the double nearest to its
  decimal; a small integer is a double itself.
\<close>

definition lit :: "builtins \<Rightarrow> real \<Rightarrow> jsnum" where
  "lit B r = Fin (fl B r)"

text \<open>
  \<open>+x.toFixed(d)\<close>. For a number below \<open>10^21\<close> in size \<open>toFixed\<close> prints the
  multiple of \<open>10^-d\<close> nearest to \<open>x\<close>, the one farther from zero when two are as
  near, and the sign of \<open>x\<close>; the unary \<open>+\<close> reads the decimal back, as the nearest
  double. Any other number is printed as \<open>String\<close> prints it, and read back as
  itself.
\<close>

fun toFixed :: "builtins \<Rightarrow> nat \<Rightarrow> jsnum \<Rightarrow> jsnum" where
  "toFixed B d (Fin x) =
     (if 10 ^ 21 \<le> \<bar>x\<bar> then Fin x
      else if x < 0 then Fin (- fl B (real_of_int \<lfloor>- x * 10 ^ d + 1 / 2\<rfloor> / 10 ^ d))
      else Fin (fl B (real_of_int \<lfloor>x * 10 ^ d + 1 / 2\<rfloor> / 10 ^ d)))"
| "toFixed B d n = n"

section \<open>Dates\<close>

text \<open>
  A \<open>Date\<close> is its time value, milliseconds since the epoch, or \<open>None\<close> when
  invalid. \<open>new Date(t)\<close> clips the time value to the range of ECMAScript dates.
\<close>

definition msPerDay :: int where
  "msPerDay = 86400000"

definition new_Date :: "int option \<Rightarrow> int option" where
  "new_Date tv = (case tv of None \<Rightarrow> None
     | Some t \<Rightarrow> if \<bar>t\<bar> \<le> 8640000000000000 then Some t else None)"

text \<open>
  The civil date (year, month, day) of a day number counted from 1970-01-01: the day
  number is located in its 400-year era, then in its year (counted from March), then in
  its month.
\<close>

definition civil_of_month :: "int \<Rightarrow> int \<Rightarrow> int \<Rightarrow> int \<times> int \<times> int" where
  "civil_of_month y mp doy =
     (if mp < 10 then y else y + 1, if mp < 10 then mp + 3 else mp - 9,
      doy - (153 * mp + 2) div 5 + 1)"

definition civil_of_year :: "int \<Rightarrow> int \<Rightarrow> int \<times> int \<times> int" where
  "civil_of_year y doy = civil_of_month y ((5 * doy + 2) div 153) doy"

definition year_of_era :: "int \<Rightarrow> int" where
  "year_of_era doe = (doe - doe div 1460 + doe div 36524 - doe div 146096) div 365"

definition civil_of_era :: "int \<Rightarrow> int \<Rightarrow> int \<times> int \<times> int" where
  "civil_of_era era doe =
     civil_of_year (era * 400 + year_of_era doe)
       (doe - (365 * year_of_era doe + year_of_era doe div 4 - year_of_era doe div 100))"

definition civil_from_days :: "int \<Rightarrow> int \<times> int \<times> int" where
  "civil_from_days z = civil_of_era ((z + 719468) div 146097) ((z + 719468) mod 146097)"

text \<open>Decimal digits, padded with zeros to a fixed width.\<close>

definition digit :: "int \<Rightarrow> char" where
  "digit n = char_of (48 + n mod 10)"

definition digits2 :: "int \<Rightarrow> string" where
  "digits2 n = [digit (n div 10), digit n]"

definition digits3 :: "int \<Rightarrow> string" where
  "digits3 n = digit (n div 100) # digits2 n"

definition digits4 :: "int \<Rightarrow> string" where
  "digits4 n = digit (n div 1000) # digits3 n"

definition digits6 :: "int \<Rightarrow> string" where
  "digits6 n = digit (n div 100000) # digit (n div 10000) # digits4 n"

text \<open>
  \<open>toISOString()\<close>: \<open>YYYY-MM-DDTHH:mm:ss.sssZ\<close>, the year with a sign and six digits
  outside 0..9999; a \<open>RangeError\<close> on an invalid date.
\<close>

definition iso_year :: "int \<Rightarrow> string" where
  "iso_year y =
     (if 0 \<le> y \<and> y \<le> 9999 then digits4 y
      else (if y < 0 then ''-'' else ''+'') @ digits6 \<bar>y\<bar>)"

fun iso_date :: "int \<times> int \<times> int \<Rightarrow> string" where
  "iso_date (y, m, d) = iso_year y @ ''-'' @ digits2 m @ ''-'' @ digits2 d"

definition iso_time :: "int \<Rightarrow> string" where
  "iso_time r = digits2 (r div 3600000) @ '':'' @ digits2 (r div 60000 mod 60) @ '':''
     @ digits2 (r div 1000 mod 60) @ ''.'' @ digits3 (r mod 1000) @ ''Z''"

definition iso_string :: "int \<Rightarrow> string" where
  "iso_string t = iso_date (civil_from_days (t div msPerDay)) @ ''T'' @ iso_time (t mod msPerDay)"

definition toISOString :: "int option \<Rightarrow> exn + string" where
  "toISOString tv = (case tv of None \<Rightarrow> Inl RangeError | Some t \<Rightarrow> Inr (iso_string t))"

text \<open>\<open>const isoDay = (d) => d.toISOString().slice(0, 10)\<close>\<close>

definition isoDay :: "int option \<Rightarrow> exn + string" where
  "isoDay d = (case toISOString d of Inl e \<Rightarrow> Inl e | Inr s \<Rightarrow> Inr (take 10 s))"

section \<open>The upstream provider\<close>

text \<open>
  \<open>axios.get(BASE + path, { headers: HEADERS, params })\<close> either throws or answers a
  response object, whose \<open>data\<close> is the provider's JSON. A request is the path with
  its parameters; the provider is a function of the request (within one call of a
  handler no request is sent twice with a different answer).
\<close>

type_synonym request = "string \<times> (string \<times> jsval) list"

type_synonym net = "request \<Rightarrow> exn + jsval"

section \<open>The freshness cache\<close>

text \<open>
  \<open>const cache = { day: new Map(), leagues: new Map(), injuries: new Map(),
  lineups: new Map(), stats: new Map() }\<close>: five maps from a string key to an entry
  \<open>{ ts, data }\<close>. Timestamps are milliseconds, as \<open>Date.now()\<close> gives them.
\<close>

record entry =
  ts :: int
  data :: jsval

type_synonym cmap = "string \<rightharpoonup> entry"

record cache =
  day_cache :: cmap
  leagues_cache :: cmap
  injuries_cache :: cmap
  lineups_cache :: cmap
  stats_cache :: cmap

definition empty_cache :: cache where
  "empty_cache = \<lparr> day_cache = Map.empty, leagues_cache = Map.empty, injuries_cache = Map.empty,
     lineups_cache = Map.empty, stats_cache = Map.empty \<rparr>"

text \<open>
  \<open>getCache(m, k, ttl)\<close>. The map is mutated in place in the source, so the model
  returns it with the value. \<open>now\<close> is what \<open>Date.now()\<close> answers on line 39; the
  clock is read only when the key has an entry. A miss and a stale entry both answer
  \<open>null\<close>.
\<close>

definition getCache :: "cmap \<Rightarrow> string \<Rightarrow> int \<Rightarrow> int \<Rightarrow> jsval \<times> cmap" where
  "getCache m k ttl now =
     (case m k of
        None \<Rightarrow> (JNull, m)
      | Some h \<Rightarrow>
          if now - ts h > ttl then (JNull, m(k := None))
          else (data h, m))"

text \<open>\<open>setCache(m, k, d)\<close>, with \<open>now\<close> the clock reading of line 45.\<close>

definition setCache :: "cmap \<Rightarrow> string \<Rightarrow> jsval \<Rightarrow> int \<Rightarrow> cmap" where
  "setCache m k d now = m(k \<mapsto> \<lparr> ts = now, data = d \<rparr>)"

text \<open>
  The cache kinds and the time to live each call site passes for its kind:
  \<open>10 * 60 * 1000\<close> (day, line 143), \<open>15 * 60 * 1000\<close> (leagues, line 108),
  \<open>30 * 60 * 1000\<close> (injuries and lineups, lines 182 and 183) and
  \<open>24 * 60 * 60 * 1000\<close> (stats, lines 228 and 229).
\<close>

datatype kind = Day | Leagues | Injuries | Lineups | Stats

fun ttl_of :: "kind \<Rightarrow> int" where
  "ttl_of Day = 10 * 60 * 1000"
| "ttl_of Leagues = 15 * 60 * 1000"
| "ttl_of Injuries = 30 * 60 * 1000"
| "ttl_of Lineups = 30 * 60 * 1000"
| "ttl_of Stats = 24 * 60 * 60 * 1000"

fun sel :: "kind \<Rightarrow> cache \<Rightarrow> cmap" where
  "sel Day c = day_cache c"
| "sel Leagues c = leagues_cache c"
| "sel Injuries c = injuries_cache c"
| "sel Lineups c = lineups_cache c"
| "sel Stats c = stats_cache c"

fun put :: "kind \<Rightarrow> cmap \<Rightarrow> cache \<Rightarrow> cache" where
  "put Day m c = c\<lparr> day_cache := m \<rparr>"
| "put Leagues m c = c\<lparr> leagues_cache := m \<rparr>"
| "put Injuries m c = c\<lparr> injuries_cache := m \<rparr>"
| "put Lineups m c = c\<lparr> lineups_cache := m \<rparr>"
| "put Stats m c = c\<lparr> stats_cache := m \<rparr>"

text \<open>The two operations on the map of one kind inside the whole cache.\<close>

definition cache_get :: "kind \<Rightarrow> string \<Rightarrow> int \<Rightarrow> cache \<Rightarrow> jsval \<times> cache" where
  "cache_get kd k now c =
     (let (v, m) = getCache (sel kd c) k (ttl_of kd) now in (v, put kd m c))"

definition cache_set :: "kind \<Rightarrow> string \<Rightarrow> jsval \<Rightarrow> int \<Rightarrow> cache \<Rightarrow> cache" where
  "cache_set kd k d now c = put kd (setCache (sel kd c) k d now) c"

section \<open>Fixtures of a day\<close>

text \<open>\<open>fx?.data?.response || []\<close>\<close>

definition response_or_empty :: "jsval \<Rightarrow> jsval" where
  "response_or_empty fx = js_or (path fx [''data'', ''response'']) (JArr [])"

text \<open>
  The parameters of the second request (line 91), built inside the \<open>try\<close> before the
  request is sent: \<open>d = new Date(day + "T00:00:00Z")\<close>,
  \<open>from: isoDay(new Date(d.getTime() - 86400000))\<close> and
  \<open>to: isoDay(new Date(d.getTime() + 86400000))\<close>. On an invalid date \<open>getTime()\<close>
  is \<open>NaN\<close> and \<open>isoDay\<close> throws.
\<close>

definition range_params :: "builtins \<Rightarrow> string \<Rightarrow> exn + (string \<times> jsval) list" where
  "range_params B day =
     (let d = Date_parse B (day @ ''T00:00:00Z'') in
      case isoDay (new_Date (map_option (\<lambda>t. t - 86400000) d)) of
        Inl e \<Rightarrow> Inl e
      | Inr from \<Rightarrow>
          (case isoDay (new_Date (map_option (\<lambda>t. t + 86400000) d)) of
             Inl e \<Rightarrow> Inl e
           | Inr to \<Rightarrow> Inr [(''from'', JStr from), (''to'', JStr to)]))"

text \<open>
  \<open>fetchFixturesForDay(day)\<close>, with the requests it sent, in order. Each \<open>try\<close>
  block catches whatever its request or the building of its parameters throws and leaves
  \<open>fixtures\<close> as it was (the logging is not modelled). \<open>fixtures.length\<close> on line 86
  stands outside the blocks.
\<close>

definition fetchFixturesForDay ::
  "builtins \<Rightarrow> net \<Rightarrow> string \<Rightarrow> (exn + jsval) \<times> request list" where
  "fetchFixturesForDay B net day =
     (let req1 = (''/fixtures'', [(''date'', JStr day)]);
          fixtures = (case net req1 of Inl e \<Rightarrow> JArr [] | Inr fx \<Rightarrow> response_or_empty fx)
      in case dot fixtures ''length'' of
           Inl e \<Rightarrow> (Inl e, [req1])
         | Inr n \<Rightarrow>
             if n = JNum (Fin 0) then
               (case range_params B day of
                  Inl e \<Rightarrow> (Inr fixtures, [req1])
                | Inr ps \<Rightarrow>
                    (case net (''/fixtures'', ps) of
                       Inl e \<Rightarrow> (Inr fixtures, [req1, (''/fixtures'', ps)])
                     | Inr fx2 \<Rightarrow> (Inr (response_or_empty fx2), [req1, (''/fixtures'', ps)])))
             else (Inr fixtures, [req1]))"

section \<open>Leagues of a day\<close>

text \<open>
  The loop of lines 114 to 122 over the fixtures. \<open>m\<close> is a \<open>Map\<close>, which keeps its
  keys in the order of their first insertion: a list of pairs, extended at its end.
  \<open>lid + "_" + season\<close> converts both operands to strings, and throws when one of
  them has no string.
\<close>

definition league_key :: "builtins \<Rightarrow> jsval \<Rightarrow> exn + string" where
  "league_key B f =
     andThen (toStr B (path f [''league'', ''id''])) (\<lambda>a.
     andThen (toStr B (path f [''league'', ''season''])) (\<lambda>b. Inr (a @ ''_'' @ b)))"

definition league_entry :: "jsval \<Rightarrow> jsval" where
  "league_entry f = JObj [(''id'', path f [''league'', ''id'']),
                          (''name'', path f [''league'', ''name'']),
                          (''country'', path f [''league'', ''country'']),
                          (''season'', path f [''league'', ''season''])]"

fun collect_leagues ::
  "builtins \<Rightarrow> jsval list \<Rightarrow> (string \<times> jsval) list \<Rightarrow> exn + (string \<times> jsval) list" where
  "collect_leagues B [] m = Inr m"
| "collect_leagues B (f # fs) m =
     (if \<not> truthy (path f [''league'', ''id'']) then collect_leagues B fs m
      else (case league_key B f of
              Inl e \<Rightarrow> Inl e
            | Inr k \<Rightarrow>
                if k \<in> set (map fst m) then collect_leagues B fs m
                else collect_leagues B fs (m @ [(k, league_entry f)])))"

text \<open>
  The comparator of lines 124 to 126:
  \<open>String(a.country || "").localeCompare(b.country || "") ||
  String(a.name || "").localeCompare(b.name || "")\<close>. \<open>localeCompare\<close> converts its
  argument to a string as \<open>String\<close> does. The names are converted only when the
  countries compare equal.
\<close>

definition sort_text :: "builtins \<Rightarrow> jsval \<Rightarrow> string \<Rightarrow> exn + string" where
  "sort_text B a k = toStr B (js_or (getprop a k) (JStr []))"

definition compare_texts :: "builtins \<Rightarrow> jsval \<Rightarrow> jsval \<Rightarrow> string \<Rightarrow> exn + int" where
  "compare_texts B a b k =
     andThen (sort_text B a k) (\<lambda>x. andThen (sort_text B b k) (\<lambda>y. Inr (localeCompare B x y)))"

definition compare_leagues :: "builtins \<Rightarrow> jsval \<Rightarrow> jsval \<Rightarrow> exn + int" where
  "compare_leagues B a b =
     andThen (compare_texts B a b ''country'') (\<lambda>c.
       if c \<noteq> 0 then Inr c else compare_texts B a b ''name'')"

text \<open>
  Line 123: the sort of the entries. An array of one entry or none is returned without
  any call of the comparator. When the comparator throws on no pair of entries, the
  sort is the stable sort by its results.
\<close>

definition returns :: "exn + 'a \<Rightarrow> bool" where
  "returns r = (case r of Inl e \<Rightarrow> False | Inr x \<Rightarrow> True)"

definition result_of :: "exn + int \<Rightarrow> int" where
  "result_of r = (case r of Inl e \<Rightarrow> 0 | Inr x \<Rightarrow> x)"

definition sort_leagues :: "builtins \<Rightarrow> jsval list \<Rightarrow> exn + jsval list" where
  "sort_leagues B ls =
     (if length ls \<le> 1 then Inr ls
      else if list_all (\<lambda>a. list_all (\<lambda>b. returns (compare_leagues B a b)) ls) ls
      then Inr (Array_sort (\<lambda>a b. result_of (compare_leagues B a b)) ls)
      else sort_abrupt B ls)"

text \<open>Lines 113 to 127: the leagues of a list of fixtures.\<close>

definition leagues_of :: "builtins \<Rightarrow> jsval list \<Rightarrow> exn + jsval list" where
  "leagues_of B fs = andThen (collect_leagues B fs []) (\<lambda>m. sort_leagues B (map snd m))"

definition leagues_payload :: "string \<Rightarrow> jsval list \<Rightarrow> jsval" where
  "leagues_payload day ls =
     JObj [(''date'', JStr day), (''count'', JNum (Fin (real (length ls)))), (''leagues'', JArr ls)]"

text \<open>
  \<open>GET /api/leagues/:date\<close>. \<open>t1\<close> and \<open>t2\<close> are the clock readings of
  \<open>getCache\<close> (line 108) and \<open>setCache\<close> (line 129).
\<close>

definition leagues_built ::
  "builtins \<Rightarrow> string \<Rightarrow> int \<Rightarrow> cache \<Rightarrow> exn + jsval list \<Rightarrow> response \<times> cache" where
  "leagues_built B day t2 c r =
     (case r of
        Inl e \<Rightarrow> (failed ''leagues-failed'' e, c)
      | Inr ls \<Rightarrow>
          (json (leagues_payload day ls), cache_set Leagues (''L_'' @ day) (leagues_payload day ls) t2 c))"

definition leagues_miss :: "builtins \<Rightarrow> net \<Rightarrow> string \<Rightarrow> int \<Rightarrow> cache \<Rightarrow> response \<times> cache" where
  "leagues_miss B net day t2 c =
     leagues_built B day t2 c
       (andThen (fst (fetchFixturesForDay B net day)) (\<lambda>fixtures.
        andThen (iterate fixtures) (leagues_of B)))"

definition leagues_handler ::
  "builtins \<Rightarrow> net \<Rightarrow> string \<Rightarrow> int \<Rightarrow> int \<Rightarrow> cache \<Rightarrow> response \<times> cache" where
  "leagues_handler B net day t1 t2 c =
     (case cache_get Leagues (''L_'' @ day) t1 c of
        (hit, c1) \<Rightarrow> if truthy hit then (json hit, c1) else leagues_miss B net day t2 c1)"

section \<open>Matches of a day\<close>

text \<open>
  Line 141: \<open>req.query.league ? Number(req.query.league) : null\<close>. Lines 141 and 142
  are outside the \<open>try\<close> of the handler.
\<close>

definition league_filter :: "builtins \<Rightarrow> jsval \<Rightarrow> exn + jsval" where
  "league_filter B q = (if truthy q then andThen (Number B q) (\<lambda>n. Inr (JNum n)) else Inr JNull)"

text \<open>Line 142: \<open>"D_" + day + (leagueId ? "_L" + leagueId : "")\<close>\<close>

definition day_key :: "builtins \<Rightarrow> string \<Rightarrow> jsval \<Rightarrow> exn + string" where
  "day_key B day leagueId =
     (if truthy leagueId then andThen (toStr B leagueId) (\<lambda>s. Inr (''D_'' @ day @ ''_L'' @ s))
      else Inr (''D_'' @ day))"

text \<open>Line 148: the filter \<open>Number(f?.league?.id) === leagueId\<close>, applied when \<open>leagueId\<close> is truthy.\<close>

definition in_league :: "builtins \<Rightarrow> jsval \<Rightarrow> jsval \<Rightarrow> exn + bool" where
  "in_league B leagueId f =
     andThen (Number B (path f [''league'', ''id''])) (\<lambda>m.
       Inr (case leagueId of JNum n \<Rightarrow> num_eq m n | _ \<Rightarrow> False))"

text \<open>\<open>arr.filter(p)\<close> and \<open>arr.map(g)\<close> for a \<open>p\<close> and a \<open>g\<close> that may throw.\<close>

fun Array_filter :: "('a \<Rightarrow> exn + bool) \<Rightarrow> 'a list \<Rightarrow> exn + 'a list" where
  "Array_filter p [] = Inr []"
| "Array_filter p (x # xs) =
     andThen (p x) (\<lambda>b. andThen (Array_filter p xs) (\<lambda>ys. Inr (if b then x # ys else ys)))"

fun Array_map :: "('a \<Rightarrow> exn + 'b) \<Rightarrow> 'a list \<Rightarrow> exn + 'b list" where
  "Array_map g [] = Inr []"
| "Array_map g (x # xs) = andThen (g x) (\<lambda>y. andThen (Array_map g xs) (\<lambda>ys. Inr (y # ys)))"

text \<open>Lines 150 to 166: the entry of one fixture.\<close>

definition match_entry :: "builtins \<Rightarrow> jsval \<Rightarrow> exn + jsval" where
  "match_entry B f =
     andThen (toStr B (path f [''fixture'', ''id''])) (\<lambda>fid. Inr (
     JObj [(''match'', JObj [
              (''id'', JStr fid),
              (''home'', path f [''teams'', ''home'', ''name'']),
              (''away'', path f [''teams'', ''away'', ''name'']),
              (''homeId'', path f [''teams'', ''home'', ''id'']),
              (''awayId'', path f [''teams'', ''away'', ''id'']),
              (''league'', path f [''league'', ''name'']),
              (''leagueId'', path f [''league'', ''id'']),
              (''season'', path f [''league'', ''season'']),
              (''country'', js_or (path f [''league'', ''country'']) JNull),
              (''time'', path f [''fixture'', ''date'']),
              (''dateISO'', path f [''fixture'', ''date''])]),
           (''lineupsConfirmed'', JBool False),
           (''availability'', JArr [])]))"

definition day_payload :: "string \<Rightarrow> jsval \<Rightarrow> jsval list \<Rightarrow> jsval" where
  "day_payload day leagueId out =
     JObj [(''date'', JStr day), (''matches'', JArr out),
           (''meta'', JObj [(''leagueFilter'', js_or leagueId JNull)])]"

text \<open>
  Lines 147 to 166: the entries of the fixtures fetched. \<open>filter\<close> and \<open>map\<close> throw
  on a value that is not an array.
\<close>

definition day_matches :: "builtins \<Rightarrow> jsval \<Rightarrow> jsval \<Rightarrow> exn + jsval list" where
  "day_matches B leagueId fixtures =
     andThen (elements fixtures) (\<lambda>fs.
     andThen (if truthy leagueId then Array_filter (in_league B leagueId) fs else Inr fs)
       (Array_map (match_entry B)))"

text \<open>Lines 168 to 172, \<open>t2\<close> the clock reading of \<open>setCache\<close> (line 169).\<close>

definition day_built ::
  "string \<Rightarrow> jsval \<Rightarrow> string \<Rightarrow> int \<Rightarrow> cache \<Rightarrow> exn + jsval list \<Rightarrow> response \<times> cache" where
  "day_built day leagueId key t2 c r =
     (case r of
        Inl e \<Rightarrow> (failed ''day-failed'' e, c)
      | Inr out \<Rightarrow>
          (json (day_payload day leagueId out), cache_set Day key (day_payload day leagueId out) t2 c))"

definition day_miss ::
  "builtins \<Rightarrow> net \<Rightarrow> string \<Rightarrow> jsval \<Rightarrow> string \<Rightarrow> int \<Rightarrow> cache \<Rightarrow> response \<times> cache" where
  "day_miss B net day leagueId key t2 c =
     day_built day leagueId key t2 c
       (andThen (fst (fetchFixturesForDay B net day)) (day_matches B leagueId))"

text \<open>
  \<open>GET /api/day/:date\<close> with the query parameter \<open>league\<close> (\<open>undefined\<close> when the
  request has none). \<open>t1\<close> is the clock reading of \<open>getCache\<close> (line 143). The
  handler itself throws, without an answer, when line 141 or line 142 does.
\<close>

definition day_cached ::
  "builtins \<Rightarrow> net \<Rightarrow> string \<Rightarrow> jsval \<Rightarrow> string \<Rightarrow> int \<Rightarrow> int \<Rightarrow> cache \<Rightarrow> response \<times> cache" where
  "day_cached B net day leagueId key t1 t2 c =
     (case cache_get Day key t1 c of
        (hit, c1) \<Rightarrow> if truthy hit then (json hit, c1) else day_miss B net day leagueId key t2 c1)"

definition day_handler ::
  "builtins \<Rightarrow> net \<Rightarrow> string \<Rightarrow> jsval \<Rightarrow> int \<Rightarrow> int \<Rightarrow> cache \<Rightarrow> exn + response \<times> cache" where
  "day_handler B net day q t1 t2 c =
     andThen (league_filter B q) (\<lambda>leagueId.
     andThen (day_key B day leagueId) (\<lambda>key. Inr (day_cached B net day leagueId key t1 t2 c)))"

section \<open>Details of a fixture\<close>

text \<open>Lines 188 to 193: the injuries, empty when the request fails.\<close>

definition fetch_injuries :: "net \<Rightarrow> string \<Rightarrow> jsval" where
  "fetch_injuries net fid =
     (case net (''/injuries'', [(''fixture'', JStr fid)]) of
        Inl e \<Rightarrow> JArr []
      | Inr r1 \<Rightarrow> response_or_empty r1)"

text \<open>
  Lines 195 to 201: \<open>lineupsConfirmed = Array.isArray(arr) && arr.length > 0\<close>,
  \<open>false\<close> when the request fails.
\<close>

fun nonempty_array :: "jsval \<Rightarrow> bool" where
  "nonempty_array (JArr xs) = (xs \<noteq> [])"
| "nonempty_array v = False"

definition fetch_lineups :: "net \<Rightarrow> string \<Rightarrow> jsval" where
  "fetch_lineups net fid =
     (case net (''/fixtures/lineups'', [(''fixture'', JStr fid)]) of
        Inl e \<Rightarrow> JBool False
      | Inr r2 \<Rightarrow> JBool (nonempty_array (response_or_empty r2)))"

definition details_payload :: "jsval \<Rightarrow> jsval \<Rightarrow> jsval" where
  "details_payload injuries lineupsConfirmed =
     JObj [(''injuries'', injuries), (''lineupsConfirmed'', lineupsConfirmed)]"

text \<open>Lines 186 to 205, with the clock readings of the two \<open>setCache\<close>.\<close>

definition details_miss :: "net \<Rightarrow> string \<Rightarrow> int \<Rightarrow> int \<Rightarrow> cache \<Rightarrow> response \<times> cache" where
  "details_miss net fid t3 t4 c =
     (json (details_payload (fetch_injuries net fid) (fetch_lineups net fid)),
      cache_set Lineups fid (fetch_lineups net fid) t4
        (cache_set Injuries fid (fetch_injuries net fid) t3 c))"

text \<open>
  \<open>GET /api/fixture/:id/details\<close> for the fixture \<open>fid = String(req.params.id)\<close>.
  \<open>t1\<close> and \<open>t2\<close> are the clock readings of the two
  \<open>getCache\<close> (lines 182 and 183). Line 184 answers from the cache when
  \<open>cInj && cLin !== undefined\<close>.
\<close>

definition details_lookup ::
  "net \<Rightarrow> string \<Rightarrow> int \<Rightarrow> int \<Rightarrow> jsval \<Rightarrow> jsval \<times> cache \<Rightarrow> response \<times> cache" where
  "details_lookup net fid t3 t4 cInj r =
     (case r of (cLin, c) \<Rightarrow>
        if truthy cInj \<and> cLin \<noteq> JUndefined then (json (details_payload cInj cLin), c)
        else details_miss net fid t3 t4 c)"

definition details_handler ::
  "net \<Rightarrow> string \<Rightarrow> int \<Rightarrow> int \<Rightarrow> int \<Rightarrow> int \<Rightarrow> cache \<Rightarrow> response \<times> cache" where
  "details_handler net fid t1 t2 t3 t4 c =
     (case cache_get Injuries fid t1 c of
        (cInj, c1) \<Rightarrow> details_lookup net fid t3 t4 cInj (cache_get Lineups fid t2 c1))"

section \<open>Prediction\<close>

text \<open>
  Lines 241 to 246. \<open>Number(x) || d\<close> is \<open>d\<close> when the number is \<open>NaN\<close> or zero;
  the conversion throws on a value without a string.
\<close>

definition num_or :: "jsnum \<Rightarrow> jsnum \<Rightarrow> jsnum" where
  "num_or n d = (if truthy (JNum n) then n else d)"

definition hGF :: "builtins \<Rightarrow> jsval \<Rightarrow> exn + jsnum" where
  "hGF B H = andThen (Number B (path H [''goals'', ''for'', ''average'', ''home'']))
               (\<lambda>n. Inr (num_or n (lit B 1.2)))"

definition hGA :: "builtins \<Rightarrow> jsval \<Rightarrow> exn + jsnum" where
  "hGA B H = andThen (Number B (path H [''goals'', ''against'', ''average'', ''home'']))
               (\<lambda>n. Inr (num_or n (Fin 1)))"

definition aGF :: "builtins \<Rightarrow> jsval \<Rightarrow> exn + jsnum" where
  "aGF B A = andThen (Number B (path A [''goals'', ''for'', ''average'', ''away'']))
               (\<lambda>n. Inr (num_or n (lit B 1.1)))"

definition aGA :: "builtins \<Rightarrow> jsval \<Rightarrow> exn + jsnum" where
  "aGA B A = andThen (Number B (path A [''goals'', ''against'', ''average'', ''away'']))
               (\<lambda>n. Inr (num_or n (lit B 1.1)))"

definition lambdaHome :: "builtins \<Rightarrow> jsnum \<Rightarrow> jsnum \<Rightarrow> jsnum" where
  "lambdaHome B x_hGF x_aGA = divd B (add B x_hGF x_aGA) (Fin 2)"

definition lambdaAway :: "builtins \<Rightarrow> jsnum \<Rightarrow> jsnum \<Rightarrow> jsnum" where
  "lambdaAway B x_aGF x_hGA = divd B (add B x_aGF x_hGA) (Fin 2)"

text \<open>The two expected goals before the injuries, from the statistics \<open>H\<close> and \<open>A\<close>.\<close>

definition expected :: "builtins \<Rightarrow> jsval \<Rightarrow> jsval \<Rightarrow> exn + jsnum \<times> jsnum" where
  "expected B H A =
     andThen (hGF B H) (\<lambda>x_hGF. andThen (hGA B H) (\<lambda>x_hGA.
     andThen (aGF B A) (\<lambda>x_aGF. andThen (aGA B A) (\<lambda>x_aGA.
       Inr (lambdaHome B x_hGF x_aGA, lambdaAway B x_aGF x_hGA)))))"

text \<open>
  Lines 253 to 259: the injury records by team. \<open>by\<close> is a plain object, so a key
  names one of its own properties or one it inherits from \<open>Object.prototype\<close>. An
  inherited value is truthy and has no \<open>push\<close>: the loop throws on it. The table gives,
  for each inherited name, what \<open>(arr && arr.length) ? arr.length : 0\<close> is on its value.
  The team id is converted to the key; the loop throws when it has no string.
\<close>

definition Object_prototype :: "(string \<times> real) list" where
  "Object_prototype =
     [(''constructor'', 1), (''__defineGetter__'', 2), (''__defineSetter__'', 2),
      (''hasOwnProperty'', 1), (''__lookupGetter__'', 1), (''__lookupSetter__'', 1),
      (''isPrototypeOf'', 1), (''propertyIsEnumerable'', 1), (''toString'', 0),
      (''valueOf'', 0), (''__proto__'', 0), (''toLocaleString'', 0)]"

definition file_injury ::
  "jsval \<Rightarrow> string \<Rightarrow> (string \<rightharpoonup> jsval list) \<Rightarrow> exn + (string \<rightharpoonup> jsval list)" where
  "file_injury it k by =
     (case by k of
        Some arr \<Rightarrow> Inr (by(k \<mapsto> arr @ [it]))
      | None \<Rightarrow> if k \<in> set (map fst Object_prototype) then Inl TypeError else Inr (by(k \<mapsto> [it])))"

fun group_injuries ::
  "builtins \<Rightarrow> jsval list \<Rightarrow> (string \<rightharpoonup> jsval list) \<Rightarrow> exn + (string \<rightharpoonup> jsval list)" where
  "group_injuries B [] by = Inr by"
| "group_injuries B (it # its) by =
     (if \<not> truthy (path it [''team'', ''id'']) then group_injuries B its by
      else andThen (toStr B (path it [''team'', ''id''])) (\<lambda>k.
           andThen (file_injury it k by) (group_injuries B its)))"

text \<open>
  Lines 260 to 262: \<open>imp(by[id])\<close> for the key of the id, with
  \<open>imp = (arr) => ((arr && arr.length) ? arr.length : 0) * 0.08\<close>.
\<close>

definition arr_length :: "(string \<rightharpoonup> jsval list) \<Rightarrow> string \<Rightarrow> real" where
  "arr_length by k =
     (case by k of
        Some arr \<Rightarrow> real (length arr)
      | None \<Rightarrow> (case map_of Object_prototype k of Some n \<Rightarrow> n | None \<Rightarrow> 0))"

definition imp :: "builtins \<Rightarrow> (string \<rightharpoonup> jsval list) \<Rightarrow> string \<Rightarrow> jsnum" where
  "imp B by k = mul B (Fin (arr_length by k)) (lit B 0.08)"

text \<open>
  Lines 248 to 263: \<open>aisHome\<close> and \<open>aisAway\<close>. The \<open>try\<close> block holds the reading of
  \<open>f.fixture.id\<close>, the request, the loop and the two assignments; whatever throws
  before line 261 leaves both at 0, and line 262 could only leave \<open>aisAway\<close> at 0.
\<close>

definition ais_of_groups ::
  "builtins \<Rightarrow> (string \<rightharpoonup> jsval list) \<Rightarrow> jsval \<Rightarrow> jsval \<Rightarrow> jsnum \<times> jsnum" where
  "ais_of_groups B by homeId awayId =
     (case toStr B homeId of
        Inl e \<Rightarrow> (Fin 0, Fin 0)
      | Inr kh \<Rightarrow>
          (case toStr B awayId of
             Inl e \<Rightarrow> (imp B by kh, Fin 0)
           | Inr ka \<Rightarrow> (imp B by kh, imp B by ka)))"

definition ais_of_response :: "builtins \<Rightarrow> jsval \<Rightarrow> jsval \<Rightarrow> jsval \<Rightarrow> jsnum \<times> jsnum" where
  "ais_of_response B injRes homeId awayId =
     (case andThen (iterate (response_or_empty injRes)) (\<lambda>resp. group_injuries B resp Map.empty) of
        Inl e \<Rightarrow> (Fin 0, Fin 0)
      | Inr by \<Rightarrow> ais_of_groups B by homeId awayId)"

definition ais :: "builtins \<Rightarrow> net \<Rightarrow> jsval \<Rightarrow> jsval \<Rightarrow> jsval \<Rightarrow> jsnum \<times> jsnum" where
  "ais B net f homeId awayId =
     (case andThen (dot (getprop f ''fixture'') ''id'') (\<lambda>fid. net (''/injuries'', [(''fixture'', fid)])) of
        Inl e \<Rightarrow> (Fin 0, Fin 0)
      | Inr injRes \<Rightarrow> ais_of_response B injRes homeId awayId)"

text \<open>Lines 265 and 266: \<open>Math.max(0.1, lambda * (1 - ais))\<close>\<close>

definition adjust :: "builtins \<Rightarrow> jsnum \<Rightarrow> jsnum \<Rightarrow> jsnum" where
  "adjust B lambda a = Math_max (lit B 0.1) (mul B lambda (sub B (Fin 1) a))"

text \<open>
  Lines 268 and 269: \<open>fact\<close> and \<open>pois\<close>. \<open>k\<close> is a goal count from 0 to 10: its
  factorial is an integer below \<open>2^53\<close>, and so are the products that build it,
  which no rounding changes.
\<close>

fun fact_js :: "nat \<Rightarrow> real" where
  "fact_js n = (if n \<le> 1 then 1 else real n * fact_js (n - 1))"

declare fact_js.simps [simp del]

definition pois :: "builtins \<Rightarrow> jsnum \<Rightarrow> nat \<Rightarrow> jsnum" where
  "pois B l k = divd B (mul B (Math_exp B (neg l)) (Math_pow B l k)) (Fin (fact_js k))"

text \<open>Lines 271 to 280: the two loops over the goals from 0 to 10, on \<open>(pH, pD, pA)\<close>.\<close>

definition score ::
  "builtins \<Rightarrow> jsnum \<Rightarrow> jsnum \<Rightarrow> nat \<Rightarrow> jsnum \<times> jsnum \<times> jsnum \<Rightarrow> nat \<Rightarrow> jsnum \<times> jsnum \<times> jsnum" where
  "score B lH lA gh acc ga =
     (case acc of (pH, pD, pA) \<Rightarrow>
        if gh > ga then (add B pH (mul B (pois B lH gh) (pois B lA ga)), pD, pA)
        else if gh = ga then (pH, add B pD (mul B (pois B lH gh) (pois B lA ga)), pA)
        else (pH, pD, add B pA (mul B (pois B lH gh) (pois B lA ga))))"

definition scorelines :: "builtins \<Rightarrow> jsnum \<Rightarrow> jsnum \<Rightarrow> jsnum \<times> jsnum \<times> jsnum" where
  "scorelines B lH lA =
     foldl (\<lambda>acc gh. foldl (score B lH lA gh) acc [0..<11]) (Fin 0, Fin 0, Fin 0) [0..<11]"

text \<open>
  Lines 281 to 285: \<open>tot = pH + pD + pA || 1\<close> and the three percentages, each
  \<open>+(p / tot * 100).toFixed(1)\<close>.
\<close>

definition total :: "builtins \<Rightarrow> jsnum \<times> jsnum \<times> jsnum \<Rightarrow> jsnum" where
  "total B p = (case p of (pH, pD, pA) \<Rightarrow> num_or (add B (add B pH pD) pA) (Fin 1))"

definition percentage :: "builtins \<Rightarrow> jsnum \<Rightarrow> jsnum \<Rightarrow> jsnum" where
  "percentage B p tot = toFixed B 1 (mul B (divd B p tot) (Fin 100))"

definition percentages :: "builtins \<Rightarrow> jsnum \<times> jsnum \<times> jsnum \<Rightarrow> jsnum \<times> jsnum \<times> jsnum" where
  "percentages B p =
     (case p of (pH, pD, pA) \<Rightarrow>
        (percentage B pH (total B p), percentage B pD (total B p), percentage B pA (total B p)))"

definition prob :: "builtins \<Rightarrow> jsnum \<Rightarrow> jsnum \<Rightarrow> jsnum \<times> jsnum \<times> jsnum" where
  "prob B lH lA = percentages B (scorelines B lH lA)"

text \<open>
  Lines 291 to 294: the pick, from \<open>prob.home\<close>, \<open>prob.draw\<close> and \<open>prob.away\<close>.
  \<open>conf\<close> is \<open>Math.max\<close> of the three.
\<close>

definition overwrite :: "bool \<Rightarrow> string \<Rightarrow> string \<Rightarrow> string" where
  "overwrite b new old = (if b then new else old)"

definition conf :: "jsnum \<times> jsnum \<times> jsnum \<Rightarrow> jsnum" where
  "conf p = (case p of (home, draw, away) \<Rightarrow> Math_max (Math_max home draw) away)"

definition pick :: "jsnum \<times> jsnum \<times> jsnum \<Rightarrow> string" where
  "pick p =
     (case p of (home, draw, away) \<Rightarrow>
        overwrite (num_eq away (conf p)) ''AWAY''
          (overwrite (num_eq home (conf p)) ''HOME'' ''DRAW''))"

text \<open>Lines 282 to 296: the answer, for the adjusted expected goals.\<close>

definition prob_object ::
  "builtins \<Rightarrow> jsnum \<times> jsnum \<times> jsnum \<Rightarrow> jsnum \<Rightarrow> jsnum \<Rightarrow> jsnum \<times> jsnum \<Rightarrow> jsval" where
  "prob_object B p lH lA a =
     (case p of (home, draw, away) \<Rightarrow>
        JObj [(''home'', JNum home), (''draw'', JNum draw), (''away'', JNum away),
              (''lambdaHome'', JNum (toFixed B 2 lH)),
              (''lambdaAway'', JNum (toFixed B 2 lA)),
              (''ais'', JObj [(''home'', JNum (toFixed B 2 (fst a))),
                              (''away'', JNum (toFixed B 2 (snd a)))])])"

definition prediction ::
  "builtins \<Rightarrow> jsval \<Rightarrow> jsval \<Rightarrow> jsval \<Rightarrow> jsnum \<Rightarrow> jsnum \<Rightarrow> jsnum \<times> jsnum \<Rightarrow> response" where
  "prediction B f leagueId season lH lA a =
     (case andThen (dot (getprop f ''fixture'') ''id'') (toStr B) of
        Inl e \<Rightarrow> failed ''predict-failed'' e
      | Inr fid \<Rightarrow>
          json (JObj [(''fixtureId'', JStr fid), (''leagueId'', leagueId),
                      (''season'', season),
                      (''prob'', prob_object B (prob B lH lA) lH lA a),
                      (''pick'', JStr (pick (prob B lH lA))),
                      (''note'', JStr ''Poisson + AIS'')]))"

text \<open>Lines 241 to 296, once the statistics \<open>H\<close> and \<open>A\<close> of the two teams are there.\<close>

definition predict_compute ::
  "builtins \<Rightarrow> net \<Rightarrow> jsval \<Rightarrow> jsval \<Rightarrow> jsval \<Rightarrow> jsval \<Rightarrow> jsval \<Rightarrow> jsval \<Rightarrow> jsval \<Rightarrow> response" where
  "predict_compute B net f leagueId season homeId awayId H A =
     (case expected B H A of
        Inl e \<Rightarrow> failed ''predict-failed'' e
      | Inr l \<Rightarrow>
          prediction B f leagueId season
            (adjust B (fst l) (fst (ais B net f homeId awayId)))
            (adjust B (snd l) (snd (ais B net f homeId awayId)))
            (ais B net f homeId awayId))"

text \<open>
  Lines 231 and 232 (236 and 237): the statistics of a team. The request is not inside
  a \<open>try\<close> of its own.
\<close>

definition fetch_stats :: "net \<Rightarrow> jsval \<Rightarrow> jsval \<Rightarrow> jsval \<Rightarrow> exn + jsval" where
  "fetch_stats net team leagueId season =
     (case net (''/teams/statistics'', [(''team'', team), (''league'', leagueId), (''season'', season)]) of
        Inl e \<Rightarrow> Inl e
      | Inr r \<Rightarrow> (case dot r ''data'' of Inl e \<Rightarrow> Inl e | Inr d \<Rightarrow> Inr (opt d ''response'')))"

text \<open>The keys of line 226: \<open>`${teamId}_${leagueId}_${season}`\<close>\<close>

definition stats_key :: "builtins \<Rightarrow> jsval \<Rightarrow> jsval \<Rightarrow> jsval \<Rightarrow> exn + string" where
  "stats_key B team leagueId season =
     andThen (toStr B team) (\<lambda>t. andThen (toStr B leagueId) (\<lambda>l. andThen (toStr B season) (\<lambda>s.
       Inr (t @ ''_'' @ l @ ''_'' @ s))))"

text \<open>Lines 235 to 239 and what follows them, \<open>tsA\<close> the clock reading of line 238.\<close>

definition predict_away ::
  "builtins \<Rightarrow> net \<Rightarrow> jsval \<Rightarrow> jsval \<Rightarrow> jsval \<Rightarrow> jsval \<Rightarrow> jsval \<Rightarrow> string \<Rightarrow> int \<Rightarrow> jsval \<Rightarrow> jsval
     \<Rightarrow> cache \<Rightarrow> response \<times> cache" where
  "predict_away B net f leagueId season homeId awayId keyA tsA H A c =
     (if \<not> truthy A then
        (case fetch_stats net awayId leagueId season of
           Inl e \<Rightarrow> (failed ''predict-failed'' e, c)
         | Inr A' \<Rightarrow>
             (predict_compute B net f leagueId season homeId awayId H A',
              cache_set Stats keyA A' tsA c))
      else (predict_compute B net f leagueId season homeId awayId H A, c))"

text \<open>Lines 230 to 234 and what follows them, \<open>tsH\<close> the clock reading of line 233.\<close>

definition predict_home ::
  "builtins \<Rightarrow> net \<Rightarrow> jsval \<Rightarrow> jsval \<Rightarrow> jsval \<Rightarrow> jsval \<Rightarrow> jsval \<Rightarrow> string \<Rightarrow> string \<Rightarrow> int \<Rightarrow> int
     \<Rightarrow> jsval \<Rightarrow> jsval \<times> cache \<Rightarrow> response \<times> cache" where
  "predict_home B net f leagueId season homeId awayId keyH keyA tsH tsA H r =
     (case r of (A, c) \<Rightarrow>
        if \<not> truthy H then
          (case fetch_stats net homeId leagueId season of
             Inl e \<Rightarrow> (failed ''predict-failed'' e, c)
           | Inr H' \<Rightarrow>
               predict_away B net f leagueId season homeId awayId keyA tsA H' A
                 (cache_set Stats keyH H' tsH c))
        else predict_away B net f leagueId season homeId awayId keyA tsA H A c)"

text \<open>
  Lines 228 and 229: the two cache lookups, \<open>tH\<close> and \<open>tA\<close> their clock readings.
\<close>

definition predict_cached ::
  "builtins \<Rightarrow> net \<Rightarrow> jsval \<Rightarrow> jsval \<Rightarrow> jsval \<Rightarrow> jsval \<Rightarrow> jsval \<Rightarrow> string \<Rightarrow> string
     \<Rightarrow> int \<Rightarrow> int \<Rightarrow> int \<Rightarrow> int \<Rightarrow> cache \<Rightarrow> response \<times> cache" where
  "predict_cached B net f leagueId season homeId awayId keyH keyA tH tA tsH tsA c =
     (case cache_get Stats keyH tH c of
        (H, c1) \<Rightarrow>
          predict_home B net f leagueId season homeId awayId keyH keyA tsH tsA H
            (cache_get Stats keyA tA c1))"

text \<open>Lines 221 to 227: the ids of the fixture and the two keys.\<close>

definition predict_stats ::
  "builtins \<Rightarrow> net \<Rightarrow> jsval \<Rightarrow> jsval \<Rightarrow> jsval \<Rightarrow> jsval \<Rightarrow> jsval \<Rightarrow> int \<Rightarrow> int \<Rightarrow> int \<Rightarrow> int \<Rightarrow> cache
     \<Rightarrow> response \<times> cache" where
  "predict_stats B net f leagueId season homeId awayId tH tA tsH tsA c =
     (case andThen (stats_key B homeId leagueId season) (\<lambda>keyH.
           andThen (stats_key B awayId leagueId season) (\<lambda>keyA. Inr (keyH, keyA))) of
        Inl e \<Rightarrow> (failed ''predict-failed'' e, c)
      | Inr keys \<Rightarrow>
          predict_cached B net f leagueId season homeId awayId (fst keys) (snd keys) tH tA tsH tsA c)"

definition predict_fixture ::
  "builtins \<Rightarrow> net \<Rightarrow> jsval \<Rightarrow> int \<Rightarrow> int \<Rightarrow> int \<Rightarrow> int \<Rightarrow> cache \<Rightarrow> response \<times> cache" where
  "predict_fixture B net f tH tA tsH tsA c =
     (if \<not> truthy f
      then (\<lparr> status = 404, body = JObj [(''error'', JStr ''Fixture non trovata'')] \<rparr>, c)
      else predict_stats B net f (path f [''league'', ''id'']) (path f [''league'', ''season''])
             (path f [''teams'', ''home'', ''id'']) (path f [''teams'', ''away'', ''id''])
             tH tA tsH tsA c)"

text \<open>
  \<open>GET /api/predict/:fixtureId\<close>. Whatever is thrown outside the inner \<open>try\<close> of the
  injuries reaches the \<open>catch\<close> of line 297.
\<close>

definition predict ::
  "builtins \<Rightarrow> net \<Rightarrow> string \<Rightarrow> int \<Rightarrow> int \<Rightarrow> int \<Rightarrow> int \<Rightarrow> cache \<Rightarrow> response \<times> cache" where
  "predict B net fixtureId tH tA tsH tsA c =
     (case net (''/fixtures'', [(''id'', JStr fixtureId)]) of
        Inl e \<Rightarrow> (failed ''predict-failed'' e, c)
      | Inr fx \<Rightarrow> predict_fixture B net (index0 (path fx [''data'', ''response''])) tH tA tsH tsA c)"

section \<open>Notions used in the statements\<close>

text \<open>
  The injury records filed under a key of \<open>by\<close>, and under the key of a team id; the
  keys that name a property inherited from \<open>Object.prototype\<close>.
\<close>

definition filed :: "builtins \<Rightarrow> string \<Rightarrow> jsval list \<Rightarrow> jsval list" where
  "filed B k its =
     filter (\<lambda>it. truthy (path it [''team'', ''id'']) \<and> toStr B (path it [''team'', ''id'']) = Inr k) its"

definition inherited :: "string \<Rightarrow> bool" where
  "inherited k = (k \<in> set (map fst Object_prototype))"

text \<open>
  The number \<open>imp\<close> counts for a key after the grouping of the records \<open>resp\<close>: the
  records filed under the key, or the entry of the table for an inherited name under
  which nothing is filed.
\<close>

definition counted :: "builtins \<Rightarrow> jsval list \<Rightarrow> string \<Rightarrow> real" where
  "counted B resp k =
     (if filed B k resp \<noteq> [] then real (length (filed B k resp))
      else (case map_of Object_prototype k of Some n \<Rightarrow> n | None \<Rightarrow> 0))"

text \<open>
  The records can be grouped when each team id that is truthy has a string, which is
  no inherited name: the loop of lines 254 to 259 then throws on no record.
\<close>

definition groupable :: "builtins \<Rightarrow> jsval list \<Rightarrow> bool" where
  "groupable B resp =
     list_all (\<lambda>it. truthy (path it [''team'', ''id'']) \<longrightarrow>
        (case toStr B (path it [''team'', ''id'']) of Inl e \<Rightarrow> False | Inr k \<Rightarrow> \<not> inherited k)) resp"

text \<open>
  The standard model of the rounding to the nearest double: it is monotone, it is off by
  at most \<open>2^-53\<close> of the number, or by half the least double \<open>2^-1074\<close> for the
  numbers near zero, and it keeps the doubles, which are the numbers \<open>m * 2^k\<close> and
  \<open>m / 2^k\<close> for an integer \<open>m\<close> of size \<open>2^53\<close> at most and \<open>k\<close> up to 1074
  in a quotient.
\<close>

definition rounding :: "(real \<Rightarrow> real) \<Rightarrow> bool" where
  "rounding r = ((\<forall>x y. x \<le> y \<longrightarrow> r x \<le> r y) \<and>
                 (\<forall>x. \<bar>r x - x\<bar> \<le> \<bar>x\<bar> / 2 ^ 53 + 1 / 2 ^ 1075) \<and>
                 (\<forall>m k. \<bar>m\<bar> \<le> 2 ^ 53 \<longrightarrow> r (real_of_int m * 2 ^ k) = real_of_int m * 2 ^ k) \<and>
                 (\<forall>m k. \<bar>m\<bar> \<le> 2 ^ 53 \<and> k \<le> 1074 \<longrightarrow>
                    r (real_of_int m / 2 ^ k) = real_of_int m / 2 ^ k))"

text \<open>
  A fixture is eligible when its league id is truthy (line 119). The key of a league
  entry and the pair (league id, season) of a fixture; a comparison of strings is
  consistent when swapping its arguments swaps the sign of its result and \<open>\<le> 0\<close> is
  transitive.
\<close>

abbreviation eligible :: "jsval \<Rightarrow> bool" where
  "eligible f \<equiv> truthy (path f [''league'', ''id''])"

definition entry_key :: "builtins \<Rightarrow> jsval \<Rightarrow> exn + string" where
  "entry_key B l =
     andThen (toStr B (getprop l ''id'')) (\<lambda>a.
     andThen (toStr B (getprop l ''season'')) (\<lambda>b. Inr (a @ ''_'' @ b)))"

definition consistent :: "(string \<Rightarrow> string \<Rightarrow> int) \<Rightarrow> bool" where
  "consistent lc = ((\<forall>a b. (lc a b < 0) = (0 < lc b a)) \<and>
                    (\<forall>a b c. lc a b \<le> 0 \<and> lc b c \<le> 0 \<longrightarrow> lc a c \<le> 0))"

text \<open>
  The text of a league entry that the comparator compares, for the country and the name:
  the string of the property, the empty string for a falsy one. \<open>ordered\<close> is the
  order of the pairs (country, name) under \<open>localeCompare\<close>, the name breaking the
  ties of the country, and \<open>compare_by_text\<close> the comparison of the texts. A
  comparison puts the empty string first when it is below every other string. A fixture
  is printable when its league id, season, country and name have strings.
\<close>

definition text_of :: "builtins \<Rightarrow> jsval \<Rightarrow> string \<Rightarrow> string" where
  "text_of B l k = (case sort_text B l k of Inl e \<Rightarrow> [] | Inr s \<Rightarrow> s)"

definition ordered :: "builtins \<Rightarrow> jsval \<Rightarrow> jsval \<Rightarrow> bool" where
  "ordered B a b =
     (localeCompare B (text_of B a ''country'') (text_of B b ''country'') < 0 \<or>
      localeCompare B (text_of B a ''country'') (text_of B b ''country'') = 0 \<and>
      localeCompare B (text_of B a ''name'') (text_of B b ''name'') \<le> 0)"

definition compare_by_text :: "builtins \<Rightarrow> jsval \<Rightarrow> jsval \<Rightarrow> int" where
  "compare_by_text B a b =
     (if localeCompare B (text_of B a ''country'') (text_of B b ''country'') \<noteq> 0
      then localeCompare B (text_of B a ''country'') (text_of B b ''country'')
      else localeCompare B (text_of B a ''name'') (text_of B b ''name''))"

definition empty_first :: "(string \<Rightarrow> string \<Rightarrow> int) \<Rightarrow> bool" where
  "empty_first lc = (\<forall>s. s \<noteq> [] \<longrightarrow> lc [] s < 0)"

definition printable :: "builtins \<Rightarrow> jsval \<Rightarrow> bool" where
  "printable B f =
     (returns (league_key B f) \<and> returns (sort_text B (league_entry f) ''country'') \<and>
      returns (sort_text B (league_entry f) ''name''))"

text \<open>The ISO date of a day number: the first ten characters of midnight's ISO string.\<close>

definition iso_date_of_day :: "int \<Rightarrow> string" where
  "iso_date_of_day n = take 10 (iso_string (n * msPerDay))"

section \<open>A sample of the built-in functions\<close>

text \<open>
  One instance of the parameters, to run the model on concrete inputs: decimal numerals
  (integers only: a number prints as its integer part), comparison by character codes,
  the dates \<open>YYYY-MM-DDT00:00:00Z\<close> of the calendar (a date is accepted when the
  civil date of its day number is the date itself), no rounding, the real exponential
  and power, and a sort that throws whenever its comparator may.
\<close>

definition digit_of :: "char \<Rightarrow> nat option" where
  "digit_of c = (if 48 \<le> (of_char c :: nat) \<and> (of_char c :: nat) \<le> 57
                 then Some (of_char c - 48) else None)"

fun decimal :: "string \<Rightarrow> nat \<Rightarrow> nat option" where
  "decimal [] acc = Some acc"
| "decimal (c # cs) acc = (case digit_of c of None \<Rightarrow> None | Some d \<Rightarrow> decimal cs (10 * acc + d))"

fun nat_string :: "nat \<Rightarrow> string" where
  "nat_string n = (if n < 10 then [digit (int n)] else nat_string (n div 10) @ [digit (int n)])"

declare nat_string.simps [simp del]

fun code_compare :: "string \<Rightarrow> string \<Rightarrow> int" where
  "code_compare [] [] = 0"
| "code_compare [] (y # ys) = - 1"
| "code_compare (x # xs) [] = 1"
| "code_compare (x # xs) (y # ys) =
     (if (of_char x :: nat) < of_char y then - 1
      else if (of_char y :: nat) < of_char x then 1
      else code_compare xs ys)"

definition days_of_year :: "int \<Rightarrow> int \<Rightarrow> int" where
  "days_of_year y doy = y div 400 * 146097 + (y mod 400) * 365 + y mod 400 div 4
     - y mod 400 div 100 + doy - 719468"

definition days_from_civil :: "int \<Rightarrow> int \<Rightarrow> int \<Rightarrow> int" where
  "days_from_civil y m d =
     days_of_year (if m \<le> 2 then y - 1 else y)
       ((153 * (if m > 2 then m - 3 else m + 9) + 2) div 5 + d - 1)"

fun iso_midnight_of :: "nat option \<Rightarrow> nat option \<Rightarrow> nat option \<Rightarrow> int option" where
  "iso_midnight_of (Some y) (Some m) (Some d) =
     (if civil_from_days (days_from_civil (int y) (int m) (int d)) = (int y, int m, int d)
      then Some (days_from_civil (int y) (int m) (int d) * msPerDay) else None)"
| "iso_midnight_of y m d = None"

definition iso_midnight :: "string \<Rightarrow> int option" where
  "iso_midnight s =
     (if length s = 20 \<and> drop 10 s = ''T00:00:00Z'' \<and> s ! 4 = CHR ''-'' \<and> s ! 7 = CHR ''-''
      then iso_midnight_of (decimal (take 4 s) 0) (decimal (take 2 (drop 5 s)) 0)
             (decimal (take 2 (drop 8 s)) 0)
      else None)"

definition sample_builtins :: builtins where
  "sample_builtins = \<lparr>
     StringToNumber = (\<lambda>s. case decimal s 0 of None \<Rightarrow> NaN | Some n \<Rightarrow> Fin (real n)),
     NumberToString = (\<lambda>n. case n of NaN \<Rightarrow> ''NaN''
        | Fin r \<Rightarrow> (if r < 0 then ''-'' else []) @ nat_string (nat \<bar>\<lfloor>r\<rfloor>\<bar>)
        | PInf \<Rightarrow> ''Infinity'' | NInf \<Rightarrow> ''-Infinity''),
     localeCompare = code_compare,
     Date_parse = iso_midnight,
     fl = (\<lambda>x. x),
     Math_exp = (\<lambda>x. case x of Fin r \<Rightarrow> Fin (exp r) | NInf \<Rightarrow> Fin 0 | _ \<Rightarrow> x),
     Math_pow = (\<lambda>x k. if k = 0 then Fin 1
        else case x of Fin r \<Rightarrow> Fin (r ^ k) | NInf \<Rightarrow> (if even k then PInf else NInf) | _ \<Rightarrow> x),
     sort_abrupt = (\<lambda>ls. Inl TypeError) \<rparr>"

section \<open>Sample providers\<close>

text \<open>
  A provider with nothing on the exact date (every other request fails) and three
  fixtures in the range from 2024-04-30 to 2024-05-02.
\<close>

definition net_range_only :: net where
  "net_range_only req =
     (if req = (''/fixtures'', [(''from'', JStr ''2024-04-30''), (''to'', JStr ''2024-05-02'')])
      then Inr (JObj [(''data'', JObj [(''response'',
             JArr [JObj [(''fixture'', JObj [(''id'', JNum (Fin 1))])],
                   JObj [(''fixture'', JObj [(''id'', JNum (Fin 2))])],
                   JObj [(''fixture'', JObj [(''id'', JNum (Fin 3))])]])])])
      else Inl (NetError ''Request failed with status code 503''))"

text \<open>
  A fixture of league 39, season 2023: team 33 at home against team 34. The statistics
  of the two teams: 2.0 goals for and 1.0 against on average at home, 1.0 for and 1.0
  against away.
\<close>

definition fixture_100 :: jsval where
  "fixture_100 = JObj [(''fixture'', JObj [(''id'', JNum (Fin 100))]),
                       (''league'', JObj [(''id'', JNum (Fin 39)), (''season'', JNum (Fin 2023))]),
                       (''teams'', JObj [(''home'', JObj [(''id'', JNum (Fin 33))]),
                                         (''away'', JObj [(''id'', JNum (Fin 34))])])]"

definition stats_home :: jsval where
  "stats_home = JObj [(''goals'', JObj [
      (''for'', JObj [(''average'', JObj [(''home'', JNum (Fin 2.0))])]),
      (''against'', JObj [(''average'', JObj [(''home'', JNum (Fin 1.0))])])])]"

definition stats_away :: jsval where
  "stats_away = JObj [(''goals'', JObj [
      (''for'', JObj [(''average'', JObj [(''away'', JNum (Fin 1.0))])]),
      (''against'', JObj [(''average'', JObj [(''away'', JNum (Fin 1.0))])])])]"

text \<open>Statistics of a home team that scored no goal at home.\<close>

definition stats_home_zero :: jsval where
  "stats_home_zero = JObj [(''goals'', JObj [
      (''for'', JObj [(''average'', JObj [(''home'', JNum (Fin 0))])]),
      (''against'', JObj [(''average'', JObj [(''home'', JNum (Fin 1.0))])])])]"

definition answer :: "jsval \<Rightarrow> exn + jsval" where
  "answer v = Inr (JObj [(''data'', JObj [(''response'', v)])])"

text \<open>
  A provider that knows the fixture and the statistics of both teams, with no injury
  record; and one that knows the fixture but fails on every request for statistics.
\<close>

definition net_no_injuries :: net where
  "net_no_injuries req =
     (if req = (''/fixtures'', [(''id'', JStr ''100'')]) then answer (JArr [fixture_100])
      else if req = (''/teams/statistics'',
                [(''team'', JNum (Fin 33)), (''league'', JNum (Fin 39)), (''season'', JNum (Fin 2023))])
      then answer stats_home
      else if req = (''/teams/statistics'',
                [(''team'', JNum (Fin 34)), (''league'', JNum (Fin 39)), (''season'', JNum (Fin 2023))])
      then answer stats_away
      else if req = (''/injuries'', [(''fixture'', JNum (Fin 100))]) then answer (JArr [])
      else Inl (NetError ''Request failed with status code 404''))"

definition net_stats_down :: net where
  "net_stats_down req =
     (if req = (''/fixtures'', [(''id'', JStr ''100'')]) then answer (JArr [fixture_100])
      else if req = (''/injuries'', [(''fixture'', JNum (Fin 100))]) then answer (JArr [])
      else Inl (NetError ''Request failed with status code 500''))"

text \<open>A provider with 13 injury records of team 33 for the fixture.\<close>

definition injury_of :: "real \<Rightarrow> jsval" where
  "injury_of team = JObj [(''team'', JObj [(''id'', JNum (Fin team))])]"

definition thirteen :: "'a \<Rightarrow> 'a list" where
  "thirteen x = [x, x, x, x, x, x, x, x, x, x, x, x, x]"

definition net_injuries13 :: net where
  "net_injuries13 req =
     (if req = (''/injuries'', [(''fixture'', JNum (Fin 100))])
      then Inr (JObj [(''data'', JObj [(''response'', JArr (thirteen (injury_of 33)))])])
      else Inl (NetError ''Network Error''))"

text \<open>A provider with one injury record and a line-up for fixture 7.\<close>

definition net_details :: net where
  "net_details req =
     (if req = (''/injuries'', [(''fixture'', JStr ''7'')])
      then Inr (JObj [(''data'', JObj [(''response'',
             JArr [JObj [(''team'', JObj [(''id'', JNum (Fin 33))])]])])])
      else if req = (''/fixtures/lineups'', [(''fixture'', JStr ''7'')])
      then Inr (JObj [(''data'', JObj [(''response'',
             JArr [JObj [(''team'', JObj [(''id'', JNum (Fin 33))])]])])])
      else Inl (NetError ''Request failed with status code 404''))"

text \<open>
  Fixtures of a day that carry their league only: two of the league 39 of the season
  2023, with different names and countries, and one of a league without a country. One
  fixture has no league.
\<close>

definition league_fixture :: "jsval \<Rightarrow> jsval" where
  "league_fixture l = JObj [(''league'', l)]"

definition la_liga :: jsval where
  "la_liga = league_fixture (JObj [(''id'', JNum (Fin 140)), (''name'', JStr ''La Liga''),
     (''country'', JStr ''Spain''), (''season'', JNum (Fin 2023))])"

definition premier_league :: jsval where
  "premier_league = league_fixture (JObj [(''id'', JNum (Fin 39)), (''name'', JStr ''Premier League''),
     (''country'', JStr ''England''), (''season'', JNum (Fin 2023))])"

definition premier_league_again :: jsval where
  "premier_league_again = league_fixture (JObj [(''id'', JNum (Fin 39)), (''name'', JStr ''EPL''),
     (''country'', JStr ''UK''), (''season'', JNum (Fin 2023))])"

definition world_cup :: jsval where
  "world_cup = league_fixture (JObj [(''id'', JNum (Fin 1)), (''name'', JStr ''World Cup''),
     (''season'', JNum (Fin 2022))])"

definition no_league :: jsval where
  "no_league = JObj [(''fixture'', JObj [(''id'', JNum (Fin 5))])]"

definition day_fixtures :: "jsval list" where
  "day_fixtures = [la_liga, premier_league, no_league, premier_league_again, world_cup]"

text \<open>A provider that answers the request for the date 2024-05-01 with two fixtures.\<close>

definition fixture_200 :: jsval where
  "fixture_200 = JObj [(''fixture'', JObj [(''id'', JNum (Fin 200))]),
                       (''league'', JObj [(''id'', JNum (Fin 140)), (''season'', JNum (Fin 2023))])]"

definition net_day :: net where
  "net_day req =
     (if req = (''/fixtures'', [(''date'', JStr ''2024-05-01'')])
      then answer (JArr [fixture_100, fixture_200])
      else Inl (NetError ''Request failed with status code 404''))"

section \<open>Properties of the cache\<close>

lemma sel_put: "sel kd (put kd m c) = m"
  by (cases kd) simp_all

lemma sel_put_other: "kd' \<noteq> kd \<Longrightarrow> sel kd' (put kd m c) = sel kd' c"
  by (cases kd; cases kd') simp_all

lemma getCache_fresh:
  "m k = Some h \<Longrightarrow> now - ts h \<le> ttl \<Longrightarrow> getCache m k ttl now = (data h, m)"
  by (simp add: getCache_def)

lemma getCache_stale:
  "m k = Some h \<Longrightarrow> now - ts h > ttl \<Longrightarrow> getCache m k ttl now = (JNull, m(k := None))"
  by (simp add: getCache_def)

lemma getCache_miss: "m k = None \<Longrightarrow> getCache m k ttl now = (JNull, m)"
  by (simp add: getCache_def)

text \<open>
  C4. For every cache kind and key: a set followed by a get whose clock reading is at
  most the kind's time to live after the set's returns the stored value and leaves the
  entry in place; a get whose reading is more than the time to live after the set's
  returns \<open>null\<close> and removes the entry, and any later get, at any reading, returns
  \<open>null\<close> again.
\<close>

theorem cache_set_get:
  "(let c1 = cache_set kd k d t0 c in
      (t1 - t0 \<le> ttl_of kd \<longrightarrow> cache_get kd k t1 c1 = (d, c1)) \<and>
      (t1 - t0 > ttl_of kd \<longrightarrow>
         (let (v, c2) = cache_get kd k t1 c1 in
            v = JNull \<and> sel kd c2 k = None \<and> fst (cache_get kd k t2 c2) = JNull)))"
proof -
  define c1 where "c1 = cache_set kd k d t0 c"
  have e: "sel kd c1 k = Some \<lparr> ts = t0, data = d \<rparr>"
    by (simp add: c1_def cache_set_def setCache_def sel_put)
  have same: "put kd (sel kd c1) c1 = c1"
    by (cases kd) (simp_all add: c1_def cache_set_def)
  have fresh: "cache_get kd k t1 c1 = (d, c1)" if "t1 - t0 \<le> ttl_of kd"
    using e same that by (simp add: cache_get_def getCache_def)
  have stale: "cache_get kd k t1 c1 = (JNull, put kd ((sel kd c1)(k := None)) c1)"
    if "t1 - t0 > ttl_of kd"
    using e that by (simp add: cache_get_def getCache_def)
  have again: "fst (cache_get kd k t2 (put kd ((sel kd c1)(k := None)) c1)) = JNull"
    by (simp add: cache_get_def getCache_def sel_put)
  show ?thesis
    unfolding Let_def c1_def [symmetric]
    using fresh stale again by (auto simp: sel_put)
qed

theorem cache_set_get_witness:
  "cache_get Lineups ''42'' 1800000 (cache_set Lineups ''42'' (JBool True) 0 empty_cache)
     = (JBool True, cache_set Lineups ''42'' (JBool True) 0 empty_cache)
   \<and> fst (cache_get Lineups ''42'' 1800001 (cache_set Lineups ''42'' (JBool True) 0 empty_cache))
     = JNull
   \<and> sel Lineups (snd (cache_get Lineups ''42'' 1800001
         (cache_set Lineups ''42'' (JBool True) 0 empty_cache))) ''42'' = None"
  using cache_set_get [of Lineups "''42''" "JBool True" 0 empty_cache 1800000 0]
    cache_set_get [of Lineups "''42''" "JBool True" 0 empty_cache 1800001 0]
  by (simp add: Let_def split: prod.splits)

section \<open>Properties of fetchFixturesForDay\<close>

lemma response_or_empty_truthy: "truthy (response_or_empty fx)"
  by (simp add: response_or_empty_def js_or_def)

lemma truthy_not_nullish: "truthy v \<Longrightarrow> \<not> nullish v"
  by (auto simp: nullish_def)

text \<open>
  C8. \<open>fetchFixturesForDay(day)\<close> never raises. \<open>first\<close> is the list the exact-date
  request gave (empty when the request failed). When its length is not 0 it is the result
  and no second request is sent. When its length is 0 and \<open>day\<close> is a date (its
  midnight is the start of day number \<open>n\<close>), the second request that is sent asks for
  the range from day \<open>n - 1\<close> to day \<open>n + 1\<close>, and the result is that request's list,
  or \<open>first\<close> when it failed.
\<close>

theorem fetchFixturesForDay_fallback:
  "(let req1 = (''/fixtures'', [(''date'', JStr day)]);
        first = (case net req1 of Inl e \<Rightarrow> JArr [] | Inr fx \<Rightarrow> response_or_empty fx);
        (r, sent) = fetchFixturesForDay B net day
    in (\<exists>v. r = Inr v) \<and>
       (getprop first ''length'' \<noteq> JNum (Fin 0) \<longrightarrow> r = Inr first \<and> sent = [req1]) \<and>
       (getprop first ''length'' = JNum (Fin 0) \<and>
        Date_parse B (day @ ''T00:00:00Z'') = Some (n * msPerDay) \<and>
        \<bar>n\<bar> < 100000000 \<longrightarrow>
          (let req2 = (''/fixtures'', [(''from'', JStr (iso_date_of_day (n - 1))),
                                      (''to'', JStr (iso_date_of_day (n + 1)))])
           in sent = [req1, req2] \<and>
              r = Inr (case net req2 of Inl e \<Rightarrow> first | Inr fx2 \<Rightarrow> response_or_empty fx2))))"
proof -
  define req1 :: request where "req1 = (''/fixtures'', [(''date'', JStr day)])"
  define first where "first = (case net req1 of Inl e \<Rightarrow> JArr [] | Inr fx \<Rightarrow> response_or_empty fx)"
  have t: "truthy first"
    by (simp add: first_def response_or_empty_truthy split: sum.splits)
  then have d: "dot first ''length'' = Inr (getprop first ''length'')"
    by (simp add: dot_def truthy_not_nullish)
  have rp: "range_params B day = Inr [(''from'', JStr (iso_date_of_day (n - 1))),
                                      (''to'', JStr (iso_date_of_day (n + 1)))]"
    if "Date_parse B (day @ ''T00:00:00Z'') = Some (n * msPerDay)" "\<bar>n\<bar> < 100000000"
  proof -
    have "\<bar>n * msPerDay - 86400000\<bar> \<le> 8640000000000000" "\<bar>n * msPerDay + 86400000\<bar> \<le> 8640000000000000"
      using that(2) by (simp_all add: msPerDay_def)
    moreover have "n * msPerDay - 86400000 = (n - 1) * msPerDay" "n * msPerDay + 86400000 = (n + 1) * msPerDay"
      by (simp_all add: msPerDay_def algebra_simps)
    ultimately show ?thesis
      using that(1) by (simp add: range_params_def isoDay_def new_Date_def toISOString_def iso_date_of_day_def)
  qed
  have f: "fetchFixturesForDay B net day =
       (if getprop first ''length'' = JNum (Fin 0) then
          (case range_params B day of
             Inl e \<Rightarrow> (Inr first, [req1])
           | Inr ps \<Rightarrow>
               (case net (''/fixtures'', ps) of
                  Inl e \<Rightarrow> (Inr first, [req1, (''/fixtures'', ps)])
                | Inr fx2 \<Rightarrow> (Inr (response_or_empty fx2), [req1, (''/fixtures'', ps)])))
        else (Inr first, [req1]))"
    unfolding fetchFixturesForDay_def Let_def req1_def [symmetric] first_def [symmetric]
    by (simp add: d)
  have ex: "\<exists>v. fst (fetchFixturesForDay B net day) = Inr v"
    unfolding f by (simp split: sum.splits)
  show ?thesis
    unfolding Let_def req1_def [symmetric] first_def [symmetric]
    using ex rp by (cases "fetchFixturesForDay B net day") (auto simp: f split: sum.splits)
qed


lemmas date_eval = iso_date_of_day_def iso_string_def civil_from_days_def civil_of_era_def
  year_of_era_def civil_of_year_def civil_of_month_def msPerDay_def iso_year_def iso_time_def
  digits2_def digits3_def digits4_def digits6_def digit_def char_of_def

lemmas sample_eval = sample_builtins_def iso_midnight_def digit_of_def days_from_civil_def
  days_of_year_def

lemma iso_sample:
  "iso_date_of_day 19843 = ''2024-04-30''" "iso_date_of_day 19845 = ''2024-05-02''"
  by (simp_all add: date_eval)

lemma parse_sample:
  "Date_parse sample_builtins (''2024-05-01'' @ ''T00:00:00Z'') = Some (19844 * msPerDay)"
  by (simp add: sample_eval date_eval)

theorem fetchFixturesForDay_fallback_witness:
  "fetchFixturesForDay sample_builtins net_range_only ''2024-05-01'' =
     (Inr (JArr [JObj [(''fixture'', JObj [(''id'', JNum (Fin 1))])],
                 JObj [(''fixture'', JObj [(''id'', JNum (Fin 2))])],
                 JObj [(''fixture'', JObj [(''id'', JNum (Fin 3))])]]),
      [(''/fixtures'', [(''date'', JStr ''2024-05-01'')]),
       (''/fixtures'', [(''from'', JStr ''2024-04-30''), (''to'', JStr ''2024-05-02'')])])"
  using fetchFixturesForDay_fallback [where net = net_range_only and day = "''2024-05-01''"
      and B = sample_builtins and n = 19844]
    parse_sample iso_sample
  by (simp add: Let_def net_range_only_def response_or_empty_def path_def opt_def nullish_def js_or_def
      split: prod.splits)

section \<open>Evaluating the model\<close>

lemmas js_eval = path_def opt_def nullish_def js_or_def response_or_empty_def dot_def

lemmas cache_eval = cache_get_def cache_set_def getCache_def setCache_def empty_cache_def

lemmas predict_eval = predict_def predict_fixture_def predict_stats_def predict_cached_def
  predict_home_def predict_away_def fetch_stats_def stats_key_def andThen_def

lemma n2s_sample:
  "NumberToString sample_builtins (Fin 33) = ''33''"
  "NumberToString sample_builtins (Fin 34) = ''34''"
  "NumberToString sample_builtins (Fin 39) = ''39''"
  "NumberToString sample_builtins (Fin 100) = ''100''"
  "NumberToString sample_builtins (Fin 2023) = ''2023''"
  by (simp_all add: sample_builtins_def nat_string.simps digit_def char_of_def)

lemma fixture_100_simps:
  "truthy fixture_100"
  "path fixture_100 [''league'', ''id''] = JNum (Fin 39)"
  "path fixture_100 [''league'', ''season''] = JNum (Fin 2023)"
  "path fixture_100 [''teams'', ''home'', ''id''] = JNum (Fin 33)"
  "path fixture_100 [''teams'', ''away'', ''id''] = JNum (Fin 34)"
  "dot (getprop fixture_100 ''fixture'') ''id'' = Inr (JNum (Fin 100))"
  by (simp_all add: fixture_100_def js_eval)

lemma answer_simps:
  "path (JObj [(''data'', JObj [(''response'', v)])]) [''data'', ''response''] = v"
  "dot (JObj [(''data'', d)]) ''data'' = Inr d"
  "opt (JObj [(''response'', v)]) ''response'' = v"
  "response_or_empty (JObj [(''data'', JObj [(''response'', v)])]) = js_or v (JArr [])"
  by (simp_all add: js_eval)

lemma net_no_injuries_simps:
  "net_no_injuries (''/fixtures'', [(''id'', JStr ''100'')]) = answer (JArr [fixture_100])"
  "net_no_injuries (''/teams/statistics'',
      [(''team'', JNum (Fin 33)), (''league'', JNum (Fin 39)), (''season'', JNum (Fin 2023))]) = answer stats_home"
  "net_no_injuries (''/teams/statistics'',
      [(''team'', JNum (Fin 34)), (''league'', JNum (Fin 39)), (''season'', JNum (Fin 2023))]) = answer stats_away"
  "net_no_injuries (''/injuries'', [(''fixture'', JNum (Fin 100))]) = answer (JArr [])"
  by (simp_all add: net_no_injuries_def)

lemma path_undefined: "path JUndefined ks = JUndefined"
  by (induction ks) (simp_all add: path_def opt_def nullish_def)

section \<open>Properties of the arithmetic\<close>

lemma rounding_int:
  assumes "rounding r" "\<bar>m\<bar> \<le> 2 ^ 53" shows "r (real_of_int m) = real_of_int m"
proof -
  have "r (real_of_int m * 2 ^ 0) = real_of_int m * 2 ^ 0"
    using assms unfolding rounding_def by blast
  thus ?thesis by simp
qed

lemma threshold_large: "2 ^ 1000 < overflow_threshold"
  by (simp add: overflow_threshold_def)

lemma dbl_small: "\<bar>x\<bar> \<le> 2 ^ 1000 \<Longrightarrow> dbl B x = Fin (fl B x)"
  using threshold_large by (auto simp add: dbl_def)

lemma threshold_pos: "0 < overflow_threshold"
  by (simp add: overflow_threshold_def)

lemma rounding_mono: "rounding r \<Longrightarrow> x \<le> y \<Longrightarrow> r x \<le> r y"
  unfolding rounding_def by blast

lemma rounding_error: "rounding r \<Longrightarrow> \<bar>r x - x\<bar> \<le> \<bar>x\<bar> / 2 ^ 53 + 1 / 2 ^ 1075"
  unfolding rounding_def by blast

lemma rounding_zero: "rounding r \<Longrightarrow> r 0 = 0"
  using rounding_int [of r 0] by simp

text \<open>Coarse bounds on the error, for numbers that are not tiny.\<close>

lemma rounding_near:
  assumes "rounding r" "0 \<le> x"
  shows "x - x / 1000000 - 1 / 1000000 \<le> r x" "r x \<le> x + x / 1000000 + 1 / 1000000"
proof -
  have a: "\<bar>r x - x\<bar> \<le> \<bar>x\<bar> / 2 ^ 53 + 1 / 2 ^ 1075"
    by (rule rounding_error [OF assms(1)])
  have b: "x / 2 ^ 53 \<le> x / 1000000"
    using assms(2) by (intro divide_left_mono) simp_all
  have c: "(1 :: real) / 2 ^ 1075 \<le> 1 / 1000000"
    by simp
  from a assms(2) have d: "\<bar>r x - x\<bar> \<le> x / 2 ^ 53 + 1 / 2 ^ 1075"
    by simp
  from d b c show "x - x / 1000000 - 1 / 1000000 \<le> r x" by linarith
  from d b c show "r x \<le> x + x / 1000000 + 1 / 1000000" by linarith
qed

lemma rounding_half:
  assumes "rounding r" "\<bar>m\<bar> \<le> 2 ^ 53" shows "r (real_of_int m / 2) = real_of_int m / 2"
proof -
  have "r (real_of_int m / 2 ^ 1) = real_of_int m / 2 ^ 1"
    using assms unfolding rounding_def by (metis (no_types) one_le_numeral)
  thus ?thesis by simp
qed

lemma rounding_small:
  assumes "rounding r"
  shows "r 0 = 0" "r 1 = 1" "r 2 = 2" "r 3 = 3" "r (3 / 2) = 3 / 2"
  using rounding_int [OF assms, of 0] rounding_int [OF assms, of 1] rounding_int [OF assms, of 2]
    rounding_int [OF assms, of 3] rounding_half [OF assms, of 3]
  by simp_all

lemma rounding_id: "rounding (\<lambda>x. x)"
  by (simp add: rounding_def)

lemma fl_sample: "fl sample_builtins = (\<lambda>x. x)"
  by (simp add: sample_builtins_def)

lemma Math_max_floor: "Math_max a b = NaN \<or> js_le a (Math_max a b)"
  by (cases a; cases b) simp_all

section \<open>Properties of the leagues of a day\<close>

subsection \<open>Sorting\<close>

lemma set_insort_by: "set (insort_by cmp x ys) = insert x (set ys)"
  by (induction ys) auto

lemma set_Array_sort: "set (Array_sort cmp xs) = set xs"
  by (induction xs) (simp_all add: Array_sort_def set_insort_by)

lemma distinct_map_insort_by:
  "distinct (map h (insort_by cmp x ys)) = (h x \<notin> h ` set ys \<and> distinct (map h ys))"
  by (induction ys) (auto simp: set_insort_by)

lemma distinct_map_Array_sort: "distinct (map h (Array_sort cmp xs)) = distinct (map h xs)"
proof (induction xs)
  case Nil
  then show ?case by (simp add: Array_sort_def)
next
  case (Cons x xs)
  have "Array_sort cmp (x # xs) = insort_by cmp x (Array_sort cmp xs)"
    by (simp add: Array_sort_def)
  with Cons show ?case by (simp add: distinct_map_insort_by set_Array_sort)
qed

lemma sorted_insort_by:
  assumes total: "\<And>a b. cmp a b \<le> 0 \<or> cmp b a \<le> 0"
    and trans: "\<And>a b c. cmp a b \<le> 0 \<Longrightarrow> cmp b c \<le> 0 \<Longrightarrow> cmp a c \<le> 0"
  shows "sorted_wrt (\<lambda>a b. cmp a b \<le> 0) ys \<Longrightarrow> sorted_wrt (\<lambda>a b. cmp a b \<le> 0) (insort_by cmp x ys)"
proof (induction ys)
  case Nil
  then show ?case by simp
next
  case (Cons y ys)
  show ?case
  proof (cases "cmp x y \<le> 0")
    case True
    with Cons.prems trans show ?thesis by auto
  next
    case False
    with total [of x y] have "cmp y x \<le> 0" by simp
    with False Cons show ?thesis by (auto simp: set_insort_by)
  qed
qed

lemma sorted_Array_sort:
  assumes total: "\<And>a b. cmp a b \<le> 0 \<or> cmp b a \<le> 0"
    and trans: "\<And>a b c. cmp a b \<le> 0 \<Longrightarrow> cmp b c \<le> 0 \<Longrightarrow> cmp a c \<le> 0"
  shows "sorted_wrt (\<lambda>a b. cmp a b \<le> 0) (Array_sort cmp xs)"
proof (induction xs)
  case Nil
  then show ?case by (simp add: Array_sort_def)
next
  case (Cons x xs)
  have "Array_sort cmp (x # xs) = insort_by cmp x (Array_sort cmp xs)"
    by (simp add: Array_sort_def)
  with Cons sorted_insort_by [of cmp, OF total trans] show ?case by simp
qed

lemma insort_by_cong:
  "\<forall>b \<in> set ys. cmp x b = cmp' x b \<Longrightarrow> insort_by cmp x ys = insort_by cmp' x ys"
  by (induction ys) auto

lemma Array_sort_cong:
  "\<forall>a \<in> set xs. \<forall>b \<in> set xs. cmp a b = cmp' a b \<Longrightarrow> Array_sort cmp xs = Array_sort cmp' xs"
proof (induction xs)
  case Nil
  then show ?case by (simp add: Array_sort_def)
next
  case (Cons x xs)
  have s: "Array_sort cmp (x # xs) = insort_by cmp x (Array_sort cmp xs)"
    "Array_sort cmp' (x # xs) = insort_by cmp' x (Array_sort cmp' xs)"
    by (simp_all add: Array_sort_def)
  from Cons have e: "Array_sort cmp xs = Array_sort cmp' xs" by simp
  have "\<forall>b \<in> set (Array_sort cmp' xs). cmp x b = cmp' x b"
    using Cons.prems by (simp add: set_Array_sort)
  hence "insort_by cmp x (Array_sort cmp' xs) = insort_by cmp' x (Array_sort cmp' xs)"
    by (rule insort_by_cong)
  thus ?case by (simp add: s e)
qed

lemma Array_sort_short: "length xs \<le> 1 \<Longrightarrow> Array_sort cmp xs = xs"
  by (cases xs) (simp_all add: Array_sort_def)

subsection \<open>The comparator\<close>

lemma compare_by_text_le: "(compare_by_text B a b \<le> 0) = ordered B a b"
  by (auto simp: compare_by_text_def ordered_def)

lemma consistent_zero: "consistent lc \<Longrightarrow> lc a b = 0 \<Longrightarrow> lc b a = 0"
  unfolding consistent_def by (metis less_irrefl linorder_neqE_linordered_idom)

lemma consistent_total: "consistent lc \<Longrightarrow> lc a b \<le> 0 \<or> lc b a \<le> 0"
  unfolding consistent_def by (metis less_le_not_le linorder_le_cases)

lemma consistent_trans: "consistent lc \<Longrightarrow> lc a b \<le> 0 \<Longrightarrow> lc b c \<le> 0 \<Longrightarrow> lc a c \<le> 0"
  unfolding consistent_def by blast

lemma consistent_less_le:
  assumes "consistent lc" "lc a b < 0" "lc b c \<le> 0"
  shows "lc a c < 0"
proof (rule ccontr)
  assume "\<not> lc a c < 0"
  moreover have "lc a c \<le> 0" using consistent_trans [OF assms(1), of a b c] assms(2,3) by simp
  ultimately have "lc a c = 0" by simp
  then have "lc c a = 0" using consistent_zero [OF assms(1)] by simp
  then have "lc b a \<le> 0" using consistent_trans [OF assms(1), of b c a] assms(3) by simp
  moreover have "0 < lc b a" using assms(1,2) unfolding consistent_def by blast
  ultimately show False by simp
qed

lemma consistent_le_less:
  assumes "consistent lc" "lc a b \<le> 0" "lc b c < 0"
  shows "lc a c < 0"
proof (rule ccontr)
  assume "\<not> lc a c < 0"
  moreover have "lc a c \<le> 0" using consistent_trans [OF assms(1), of a b c] assms(2,3) by simp
  ultimately have "lc a c = 0" by simp
  then have "lc c a = 0" using consistent_zero [OF assms(1)] by simp
  then have "lc c b \<le> 0" using consistent_trans [OF assms(1), of c a b] assms(2) by simp
  moreover have "0 < lc c b" using assms(1,3) unfolding consistent_def by blast
  ultimately show False by simp
qed

lemma ordered_total:
  assumes "consistent (localeCompare B)"
  shows "ordered B a b \<or> ordered B b a"
proof -
  let ?c = "localeCompare B (text_of B a ''country'') (text_of B b ''country'')"
  let ?c' = "localeCompare B (text_of B b ''country'') (text_of B a ''country'')"
  consider "?c < 0" | "?c = 0" | "0 < ?c" by linarith
  then show ?thesis
  proof cases
    case 1
    then show ?thesis by (simp add: ordered_def)
  next
    case 2
    then have "?c' = 0" using consistent_zero [OF assms] by simp
    with 2 consistent_total [OF assms, of "text_of B a ''name''" "text_of B b ''name''"]
    show ?thesis by (auto simp: ordered_def)
  next
    case 3
    then have "?c' < 0" using assms unfolding consistent_def by blast
    then show ?thesis by (simp add: ordered_def)
  qed
qed

lemma ordered_trans:
  assumes "consistent (localeCompare B)"
    and "ordered B a b" "ordered B b c"
  shows "ordered B a c"
proof -
  let ?ca = "text_of B a ''country''" and ?cb = "text_of B b ''country''"
    and ?cc = "text_of B c ''country''"
  let ?na = "text_of B a ''name''" and ?nb = "text_of B b ''name''"
    and ?nc = "text_of B c ''name''"
  let ?lc = "localeCompare B"
  from assms(2) consider "?lc ?ca ?cb < 0" | "?lc ?ca ?cb = 0" "?lc ?na ?nb \<le> 0"
    by (auto simp: ordered_def)
  then show ?thesis
  proof cases
    case 1
    from assms(3) have "?lc ?cb ?cc \<le> 0" by (auto simp: ordered_def)
    with 1 have "?lc ?ca ?cc < 0" using consistent_less_le [OF assms(1)] by blast
    then show ?thesis by (simp add: ordered_def)
  next
    case 2
    from assms(3) consider "?lc ?cb ?cc < 0" | "?lc ?cb ?cc = 0" "?lc ?nb ?nc \<le> 0"
      by (auto simp: ordered_def)
    then show ?thesis
    proof cases
      case 1
      with 2(1) have "?lc ?ca ?cc < 0" using consistent_le_less [OF assms(1), of ?ca ?cb ?cc] by simp
      then show ?thesis by (simp add: ordered_def)
    next
      case b: 2
      have le: "?lc ?ca ?cc \<le> 0"
        using consistent_trans [OF assms(1), of ?ca ?cb ?cc] 2(1) b(1) by simp
      have "?lc ?cc ?cb = 0" "?lc ?cb ?ca = 0"
        using consistent_zero [OF assms(1)] 2(1) b(1) by simp_all
      then have "?lc ?cc ?ca \<le> 0"
        using consistent_trans [OF assms(1), of ?cc ?cb ?ca] by simp
      then have "\<not> ?lc ?ca ?cc < 0" using assms(1) unfolding consistent_def by (metis not_le)
      with le have "?lc ?ca ?cc = 0" by simp
      moreover have "?lc ?na ?nc \<le> 0"
        using consistent_trans [OF assms(1), of ?na ?nb ?nc] 2(2) b(2) by simp
      ultimately show ?thesis by (simp add: ordered_def)
    qed
  qed
qed

text \<open>On entries with strings the comparator returns, and compares the texts.\<close>

lemma compare_leagues_printable:
  assumes "returns (sort_text B a ''country'')" "returns (sort_text B a ''name'')"
    "returns (sort_text B b ''country'')" "returns (sort_text B b ''name'')"
  shows "compare_leagues B a b = Inr (compare_by_text B a b)"
  using assms
  by (auto simp add: compare_leagues_def compare_texts_def compare_by_text_def text_of_def
        andThen_def returns_def split: sum.splits)

lemma sort_leagues_printable:
  assumes "\<forall>a \<in> set ls. returns (sort_text B a ''country'') \<and> returns (sort_text B a ''name'')"
  shows "sort_leagues B ls = Inr (Array_sort (compare_by_text B) ls)"
proof -
  have c: "\<forall>a \<in> set ls. \<forall>b \<in> set ls. compare_leagues B a b = Inr (compare_by_text B a b)"
    using assms compare_leagues_printable by blast
  hence r: "list_all (\<lambda>a. list_all (\<lambda>b. returns (compare_leagues B a b)) ls) ls"
    by (simp add: list_all_iff returns_def)
  have "\<forall>a \<in> set ls. \<forall>b \<in> set ls. result_of (compare_leagues B a b) = compare_by_text B a b"
    using c by (simp add: result_of_def)
  hence e: "Array_sort (\<lambda>a b. result_of (compare_leagues B a b)) ls = Array_sort (compare_by_text B) ls"
    by (rule Array_sort_cong)
  show ?thesis
    using r e by (simp add: sort_leagues_def Array_sort_short)
qed


subsection \<open>The loop over the fixtures\<close>

lemma entry_key_league_entry: "entry_key B (league_entry f) = league_key B f"
  by (simp add: entry_key_def league_entry_def league_key_def)

lemma collect_step:
  assumes "collect_leagues B (f # fs) m = Inr m'"
  shows "(\<not> eligible f \<and> collect_leagues B fs m = Inr m') \<or>
         (\<exists>k. eligible f \<and> league_key B f = Inr k \<and> k \<in> fst ` set m \<and> collect_leagues B fs m = Inr m') \<or>
         (\<exists>k. eligible f \<and> league_key B f = Inr k \<and> k \<notin> fst ` set m \<and>
            collect_leagues B fs (m @ [(k, league_entry f)]) = Inr m')"
  using assms by (auto split: if_splits sum.splits)

lemma collect_returns:
  "\<forall>f \<in> set fs. eligible f \<longrightarrow> returns (league_key B f) \<Longrightarrow> \<exists>m'. collect_leagues B fs m = Inr m'"
  by (induction fs arbitrary: m) (auto simp add: returns_def split: sum.splits)

lemma collect_distinct:
  "collect_leagues B fs m = Inr m' \<Longrightarrow> distinct (map fst m) \<Longrightarrow> distinct (map fst m')"
proof (induction fs arbitrary: m)
  case Nil
  then show ?case by simp
next
  case (Cons f fs)
  from collect_step [OF Cons.prems(1)] Cons.IH Cons.prems(2) show ?case
    by (elim disjE exE conjE) auto
qed

lemma collect_entries:
  "collect_leagues B fs m = Inr m' \<Longrightarrow> \<forall>p \<in> set m. entry_key B (snd p) = Inr (fst p) \<Longrightarrow>
     \<forall>p \<in> set m'. entry_key B (snd p) = Inr (fst p)"
proof (induction fs arbitrary: m)
  case Nil
  then show ?case by simp
next
  case (Cons f fs)
  from collect_step [OF Cons.prems(1)] show ?case
  proof (elim disjE exE conjE)
    assume "collect_leagues B fs m = Inr m'"
    from Cons.IH [OF this Cons.prems(2)] show ?thesis .
  next
    fix k assume "collect_leagues B fs m = Inr m'"
    from Cons.IH [OF this Cons.prems(2)] show ?thesis .
  next
    fix k assume k: "league_key B f = Inr k" and c: "collect_leagues B fs (m @ [(k, league_entry f)]) = Inr m'"
    have "\<forall>p \<in> set (m @ [(k, league_entry f)]). entry_key B (snd p) = Inr (fst p)"
      using Cons.prems(2) k by (simp add: entry_key_league_entry)
    from Cons.IH [OF c this] show ?thesis .
  qed
qed

lemma collect_keeps:
  "collect_leagues B fs m = Inr m' \<Longrightarrow> k \<in> fst ` set m \<Longrightarrow> k \<in> fst ` set m'"
proof (induction fs arbitrary: m)
  case Nil
  then show ?case by simp
next
  case (Cons f fs)
  from collect_step [OF Cons.prems(1)] show ?case
  proof (elim disjE exE conjE)
    assume "collect_leagues B fs m = Inr m'"
    from Cons.IH [OF this Cons.prems(2)] show ?thesis .
  next
    fix k' assume "collect_leagues B fs m = Inr m'"
    from Cons.IH [OF this Cons.prems(2)] show ?thesis .
  next
    fix k' assume c: "collect_leagues B fs (m @ [(k', league_entry f)]) = Inr m'"
    have "k \<in> fst ` set (m @ [(k', league_entry f)])"
      using Cons.prems(2) by auto
    from Cons.IH [OF c this] show ?thesis .
  qed
qed

lemma collect_complete:
  "collect_leagues B fs m = Inr m' \<Longrightarrow> f \<in> set fs \<Longrightarrow> eligible f \<Longrightarrow>
     \<exists>k. league_key B f = Inr k \<and> k \<in> fst ` set m'"
proof (induction fs arbitrary: m)
  case Nil
  then show ?case by simp
next
  case (Cons g fs)
  show ?case
  proof (cases "f = g")
    case True
    from collect_step [OF Cons.prems(1)] show ?thesis
    proof (elim disjE exE conjE)
      assume "\<not> eligible g"
      with True Cons.prems(3) show ?thesis by simp
    next
      fix k assume k: "league_key B g = Inr k" "k \<in> fst ` set m" and c: "collect_leagues B fs m = Inr m'"
      from collect_keeps [OF c k(2)] k(1) True show ?thesis by simp
    next
      fix k assume k: "league_key B g = Inr k" and c: "collect_leagues B fs (m @ [(k, league_entry g)]) = Inr m'"
      have "k \<in> fst ` set (m @ [(k, league_entry g)])" by simp
      from collect_keeps [OF c this] k True show ?thesis by simp
    qed
  next
    case False
    with Cons.prems have i: "f \<in> set fs" by simp
    from collect_step [OF Cons.prems(1)] show ?thesis
    proof (elim disjE exE conjE)
      assume "collect_leagues B fs m = Inr m'"
      from Cons.IH [OF this i Cons.prems(3)] show ?thesis .
    next
      fix k assume "collect_leagues B fs m = Inr m'"
      from Cons.IH [OF this i Cons.prems(3)] show ?thesis .
    next
      fix k assume "collect_leagues B fs (m @ [(k, league_entry g)]) = Inr m'"
      from Cons.IH [OF this i Cons.prems(3)] show ?thesis .
    qed
  qed
qed

lemma collect_first_seen:
  "collect_leagues B fs m = Inr m' \<Longrightarrow> (k, e) \<in> set m' \<Longrightarrow>
     (k, e) \<in> set m \<or>
     (\<exists>pre f post. fs = pre @ f # post \<and> eligible f \<and> league_key B f = Inr k \<and> e = league_entry f \<and>
        k \<notin> fst ` set m \<and> (\<forall>g \<in> set pre. eligible g \<longrightarrow> league_key B g \<noteq> Inr k))"
proof (induction fs arbitrary: m)
  case Nil
  then show ?case by simp
next
  case (Cons f fs)
  from collect_step [OF Cons.prems(1)]
  consider (skip) "collect_leagues B fs m = Inr m'" "eligible f \<longrightarrow> (\<exists>k'. league_key B f = Inr k' \<and> k' \<in> fst ` set m)"
    | (new) k' where "eligible f" "league_key B f = Inr k'" "k' \<notin> fst ` set m"
        "collect_leagues B fs (m @ [(k', league_entry f)]) = Inr m'"
    by blast
  then show ?case
  proof cases
    case skip
    from Cons.IH [OF skip(1) Cons.prems(2)] show ?thesis
    proof
      assume "(k, e) \<in> set m"
      then show ?thesis by simp
    next
      assume "\<exists>pre f' post. fs = pre @ f' # post \<and> eligible f' \<and> league_key B f' = Inr k \<and> e = league_entry f' \<and>
        k \<notin> fst ` set m \<and> (\<forall>g \<in> set pre. eligible g \<longrightarrow> league_key B g \<noteq> Inr k)"
      then obtain pre f' post where p: "fs = pre @ f' # post" "eligible f'" "league_key B f' = Inr k"
        "e = league_entry f'" "k \<notin> fst ` set m" "\<forall>g \<in> set pre. eligible g \<longrightarrow> league_key B g \<noteq> Inr k"
        by blast
      from skip(2) p(5) have "eligible f \<longrightarrow> league_key B f \<noteq> Inr k" by force
      with p have "f # fs = (f # pre) @ f' # post \<and> eligible f' \<and> league_key B f' = Inr k \<and> e = league_entry f' \<and>
        k \<notin> fst ` set m \<and> (\<forall>g \<in> set (f # pre). eligible g \<longrightarrow> league_key B g \<noteq> Inr k)"
        by simp
      then show ?thesis by blast
    qed
  next
    case new
    from Cons.IH [OF new(4) Cons.prems(2)] show ?thesis
    proof
      assume "(k, e) \<in> set (m @ [(k', league_entry f)])"
      then consider "(k, e) \<in> set m" | "k = k'" "e = league_entry f" by auto
      then show ?thesis
      proof cases
        case 1
        then show ?thesis by simp
      next
        case 2
        with new have "f # fs = [] @ f # fs \<and> eligible f \<and> league_key B f = Inr k \<and> e = league_entry f \<and>
          k \<notin> fst ` set m \<and> (\<forall>g \<in> set []. eligible g \<longrightarrow> league_key B g \<noteq> Inr k)"
          by simp
        then show ?thesis by blast
      qed
    next
      assume "\<exists>pre f' post. fs = pre @ f' # post \<and> eligible f' \<and> league_key B f' = Inr k \<and> e = league_entry f' \<and>
        k \<notin> fst ` set (m @ [(k', league_entry f)]) \<and>
        (\<forall>g \<in> set pre. eligible g \<longrightarrow> league_key B g \<noteq> Inr k)"
      then obtain pre f' post where p: "fs = pre @ f' # post" "eligible f'" "league_key B f' = Inr k"
        "e = league_entry f'" "k \<notin> fst ` set (m @ [(k', league_entry f)])"
        "\<forall>g \<in> set pre. eligible g \<longrightarrow> league_key B g \<noteq> Inr k"
        by blast
      from p(5) new(2) have "league_key B f \<noteq> Inr k" "k \<notin> fst ` set m" by auto
      with p have "f # fs = (f # pre) @ f' # post \<and> eligible f' \<and> league_key B f' = Inr k \<and> e = league_entry f' \<and>
        k \<notin> fst ` set m \<and> (\<forall>g \<in> set (f # pre). eligible g \<longrightarrow> league_key B g \<noteq> Inr k)"
        by simp
      then show ?thesis by blast
    qed
  qed
qed

lemma distinct_map_inner: "distinct (map (\<lambda>x. g (h x)) xs) \<Longrightarrow> distinct (map h xs)"
  by (induction xs) auto


lemma sorted_wrt_nth: "sorted_wrt P xs \<Longrightarrow> i < j \<Longrightarrow> j < length xs \<Longrightarrow> P (xs ! i) (xs ! j)"
  by (simp add: sorted_wrt_iff_nth_less)

subsection \<open>The sample comparison\<close>

lemma code_compare_swap: "(code_compare a b < 0) = (0 < code_compare b a)"
  by (induction a b rule: code_compare.induct) auto

lemma code_compare_trans:
  "code_compare a b \<le> 0 \<Longrightarrow> code_compare b c \<le> 0 \<Longrightarrow> code_compare a c \<le> 0"
proof (induction a arbitrary: b c)
  case Nil
  then show ?case by (cases c) simp_all
next
  case (Cons x xs)
  then obtain y ys where b: "b = y # ys" by (cases b) auto
  with Cons.prems(2) obtain z zs where c: "c = z # zs" by (cases c) auto
  from Cons.prems b c have xy: "(of_char x :: nat) \<le> of_char y" and yz: "(of_char y :: nat) \<le> of_char z"
    by (auto split: if_splits)
  show ?case
  proof (cases "(of_char x :: nat) < of_char z")
    case True
    then show ?thesis by (simp add: c)
  next
    case False
    with xy yz have e: "(of_char x :: nat) = of_char y" "(of_char y :: nat) = of_char z"
      by linarith+
    with Cons.prems b c have "code_compare xs ys \<le> 0" "code_compare ys zs \<le> 0" by simp_all
    from Cons.IH [OF this] e show ?thesis by (simp add: c)
  qed
qed

lemma sample_consistent: "consistent (localeCompare sample_builtins)"
  unfolding consistent_def sample_builtins_def
  using code_compare_swap code_compare_trans by (simp, blast)

lemma sample_empty_first: "empty_first (localeCompare sample_builtins)"
  unfolding empty_first_def
proof (intro allI impI)
  fix s :: string assume "s \<noteq> []"
  then obtain c cs where "s = c # cs" by (cases s) auto
  thus "localeCompare sample_builtins [] s < 0" by (simp add: sample_builtins_def)
qed

lemma n2s_leagues:
  "NumberToString sample_builtins (Fin 140) = ''140''"
  "NumberToString sample_builtins (Fin 1) = ''1''"
  "NumberToString sample_builtins (Fin 2022) = ''2022''"
  by (simp_all add: sample_builtins_def nat_string.simps digit_def char_of_def)

lemma league_fixture_simps:
  "path (league_fixture l) [''league'', k] = opt l k"
  by (simp add: league_fixture_def path_def opt_def nullish_def)

lemma league_keys:
  "league_key sample_builtins la_liga = Inr ''140_2023''"
  "league_key sample_builtins premier_league = Inr ''39_2023''"
  "league_key sample_builtins premier_league_again = Inr ''39_2023''"
  "league_key sample_builtins world_cup = Inr ''1_2022''"
  by (simp_all add: league_key_def la_liga_def premier_league_def premier_league_again_def
        world_cup_def league_fixture_simps opt_def nullish_def andThen_def n2s_sample n2s_leagues)

lemma eligible_sample:
  "eligible la_liga" "eligible premier_league" "eligible premier_league_again" "eligible world_cup"
  "\<not> eligible no_league"
  by (simp_all add: la_liga_def premier_league_def premier_league_again_def world_cup_def
        league_fixture_simps opt_def nullish_def) (simp add: no_league_def path_def opt_def nullish_def)

lemma sort_texts:
  "sort_text sample_builtins (league_entry la_liga) ''country'' = Inr ''Spain''"
  "sort_text sample_builtins (league_entry premier_league) ''country'' = Inr ''England''"
  "sort_text sample_builtins (league_entry premier_league_again) ''country'' = Inr ''UK''"
  "sort_text sample_builtins (league_entry world_cup) ''country'' = Inr []"
  "sort_text sample_builtins (league_entry la_liga) ''name'' = Inr ''La Liga''"
  "sort_text sample_builtins (league_entry premier_league) ''name'' = Inr ''Premier League''"
  "sort_text sample_builtins (league_entry premier_league_again) ''name'' = Inr ''EPL''"
  "sort_text sample_builtins (league_entry world_cup) ''name'' = Inr ''World Cup''"
  by (simp_all add: sort_text_def league_entry_def la_liga_def premier_league_def world_cup_def
        premier_league_again_def league_fixture_simps opt_def nullish_def js_or_def)

lemma collect_sample:
  "collect_leagues sample_builtins day_fixtures [] =
     Inr [(''140_2023'', league_entry la_liga), (''39_2023'', league_entry premier_league),
          (''1_2022'', league_entry world_cup)]"
  by (simp add: day_fixtures_def league_keys eligible_sample)

lemma compare_sample:
  "compare_leagues sample_builtins (league_entry world_cup) (league_entry premier_league) = Inr (- 1)"
  "compare_leagues sample_builtins (league_entry premier_league) (league_entry la_liga) = Inr (- 1)"
  "compare_leagues sample_builtins (league_entry world_cup) (league_entry la_liga) = Inr (- 1)"
  "compare_leagues sample_builtins (league_entry la_liga) (league_entry world_cup) = Inr 1"
  "compare_leagues sample_builtins (league_entry la_liga) (league_entry premier_league) = Inr 1"
  "compare_leagues sample_builtins (league_entry premier_league) (league_entry world_cup) = Inr 1"
  "compare_leagues sample_builtins (league_entry la_liga) (league_entry la_liga) = Inr 0"
  "compare_leagues sample_builtins (league_entry premier_league) (league_entry premier_league) = Inr 0"
  "compare_leagues sample_builtins (league_entry world_cup) (league_entry world_cup) = Inr 0"
  by (simp_all add: compare_leagues_def compare_texts_def sort_texts andThen_def)
     (simp_all add: sample_builtins_def)

lemma leagues_sample:
  "leagues_of sample_builtins day_fixtures =
     Inr [league_entry world_cup, league_entry premier_league, league_entry la_liga]"
  by (simp add: leagues_of_def collect_sample andThen_def sort_leagues_def Array_sort_def
        compare_sample returns_def result_of_def)

subsection \<open>The leagues\<close>

text \<open>
  C7. For a consistent \<open>localeCompare\<close> and fixtures whose league ids, seasons,
  countries and names have strings, the handler builds a list of leagues. The list is in
  non-decreasing order of the pairs (country, name), a falsy (missing) country or name
  taken as the empty string; when \<open>localeCompare\<close> puts the empty string before every
  other, no league with an empty country follows one with a non-empty country. No two
  leagues have the same pair (id, season); every league is the entry (id, name, country,
  season) of the first eligible fixture with its key \<open>lid + "_" + season\<close>; and every
  eligible fixture has its key among the leagues.
\<close>

theorem leagues_dedup_sorted:
  assumes "consistent (localeCompare B)"
    and "\<forall>f \<in> set fs. eligible f \<longrightarrow> printable B f"
  shows "\<exists>ls. leagues_of B fs = Inr ls \<and>
    sorted_wrt (ordered B) ls \<and>
    (\<forall>l k. \<not> truthy (getprop l k) \<longrightarrow> text_of B l k = []) \<and>
    (empty_first (localeCompare B) \<longrightarrow>
       (\<forall>i j. i < j \<and> j < length ls \<and> text_of B (ls ! j) ''country'' = [] \<longrightarrow>
          text_of B (ls ! i) ''country'' = [])) \<and>
    distinct (map (\<lambda>l. (getprop l ''id'', getprop l ''season'')) ls) \<and>
    (\<forall>l \<in> set ls. \<exists>pre f post. fs = pre @ f # post \<and> eligible f \<and> l = league_entry f \<and>
        (\<forall>g \<in> set pre. eligible g \<longrightarrow> league_key B g \<noteq> league_key B f)) \<and>
    (\<forall>f \<in> set fs. eligible f \<longrightarrow> (\<exists>l \<in> set ls. entry_key B l = league_key B f))"
proof -
  have "\<forall>f \<in> set fs. eligible f \<longrightarrow> returns (league_key B f)"
    using assms(2) by (simp add: printable_def)
  from collect_returns [OF this] obtain m where m: "collect_leagues B fs [] = Inr m"
    by blast
  define ls where "ls = Array_sort (compare_by_text B) (map snd m)"
  have first: "\<exists>pre f post. fs = pre @ f # post \<and> eligible f \<and> l = league_entry f \<and>
        (\<forall>g \<in> set pre. eligible g \<longrightarrow> league_key B g \<noteq> league_key B f)"
    if "l \<in> set (map snd m)" for l
  proof -
    from that obtain k where "(k, l) \<in> set m" by auto
    from collect_first_seen [OF m this]
    obtain pre f post where "fs = pre @ f # post" "eligible f" "league_key B f = Inr k"
      "l = league_entry f" "\<forall>g \<in> set pre. eligible g \<longrightarrow> league_key B g \<noteq> Inr k"
      by auto
    hence "fs = pre @ f # post \<and> eligible f \<and> l = league_entry f \<and>
        (\<forall>g \<in> set pre. eligible g \<longrightarrow> league_key B g \<noteq> league_key B f)"
      by simp
    thus ?thesis by blast
  qed
  have p: "\<forall>a \<in> set (map snd m). returns (sort_text B a ''country'') \<and> returns (sort_text B a ''name'')"
  proof
    fix a assume "a \<in> set (map snd m)"
    from first [OF this] obtain pre f post where f: "fs = pre @ f # post" "eligible f" "a = league_entry f"
      by blast
    with assms(2) have "printable B f" by simp
    with f(3) show "returns (sort_text B a ''country'') \<and> returns (sort_text B a ''name'')"
      by (simp add: printable_def)
  qed
  have l: "leagues_of B fs = Inr ls"
    by (simp add: leagues_of_def m andThen_def sort_leagues_printable [OF p] ls_def)
  have set_ls: "set ls = set (map snd m)"
    by (simp add: ls_def set_Array_sort)
  have "sorted_wrt (\<lambda>a b. compare_by_text B a b \<le> 0) ls"
    unfolding ls_def compare_by_text_le
  proof (rule sorted_Array_sort [of "compare_by_text B", unfolded compare_by_text_le])
    show "ordered B a b \<or> ordered B b a" for a b
      by (rule ordered_total [OF assms(1)])
    show "ordered B a c" if "ordered B a b" "ordered B b c" for a b c
      by (rule ordered_trans [OF assms(1) that])
  qed
  hence s: "sorted_wrt (ordered B) ls"
    by (simp add: compare_by_text_le)
  have t: "\<forall>l k. \<not> truthy (getprop l k) \<longrightarrow> text_of B l k = []"
    by (simp add: text_of_def sort_text_def js_or_def)
  have e0: "text_of B (ls ! i) ''country'' = []"
    if h: "\<forall>s. s \<noteq> [] \<longrightarrow> localeCompare B [] s < 0"
      and ij: "i < j" "j < length ls" "text_of B (ls ! j) ''country'' = []" for i j
  proof (rule ccontr)
    assume n: "text_of B (ls ! i) ''country'' \<noteq> []"
    with h have "localeCompare B [] (text_of B (ls ! i) ''country'') < 0" by simp
    hence "0 < localeCompare B (text_of B (ls ! i) ''country'') []"
      using assms(1) unfolding consistent_def by blast
    moreover from sorted_wrt_nth [OF s ij(1,2)] have "ordered B (ls ! i) (ls ! j)" .
    ultimately show False by (simp add: ordered_def ij(3))
  qed
  have e: "empty_first (localeCompare B) \<longrightarrow>
       (\<forall>i j. i < j \<and> j < length ls \<and> text_of B (ls ! j) ''country'' = [] \<longrightarrow>
          text_of B (ls ! i) ''country'' = [])"
  proof (intro impI allI)
    fix i j
    assume "empty_first (localeCompare B)"
      "i < j \<and> j < length ls \<and> text_of B (ls ! j) ''country'' = []"
    thus "text_of B (ls ! i) ''country'' = []"
      using e0 [of i j] by (simp add: empty_first_def)
  qed
  have ek: "\<forall>p \<in> set m. entry_key B (snd p) = Inr (fst p)"
    by (rule collect_entries [OF m]) simp
  have dk: "distinct (map fst m)"
    by (rule collect_distinct [OF m]) simp
  have e2: "map (entry_key B) (map snd m) = map (\<lambda>p. Inr (fst p)) m"
    using ek by (induction m) auto
  have "distinct (map (\<lambda>p. (Inr (fst p) :: exn + string)) m)"
    using dk by (simp add: distinct_map inj_on_def)
  hence d0: "distinct (map (entry_key B) (map snd m))"
    by (simp only: e2)
  have "distinct (map (\<lambda>l. (\<lambda>p. andThen (toStr B (fst p)) (\<lambda>a. andThen (toStr B (snd p)) (\<lambda>b. Inr (a @ ''_'' @ b))))
            (getprop l ''id'', getprop l ''season'')) (map snd m))"
    using d0 by (simp add: entry_key_def [abs_def])
  then have "distinct (map (\<lambda>l. (getprop l ''id'', getprop l ''season'')) (map snd m))"
    by (rule distinct_map_inner [where h = "\<lambda>l. (getprop l ''id'', getprop l ''season'')"
          and g = "\<lambda>p. andThen (toStr B (fst p)) (\<lambda>a. andThen (toStr B (snd p)) (\<lambda>b. Inr (a @ ''_'' @ b)))"])
  then have d: "distinct (map (\<lambda>l. (getprop l ''id'', getprop l ''season'')) ls)"
    unfolding ls_def by (simp only: distinct_map_Array_sort)
  have f: "\<forall>l \<in> set ls. \<exists>pre f post. fs = pre @ f # post \<and> eligible f \<and> l = league_entry f \<and>
        (\<forall>g \<in> set pre. eligible g \<longrightarrow> league_key B g \<noteq> league_key B f)"
  proof
    fix l assume "l \<in> set ls"
    hence "l \<in> set (map snd m)" by (simp only: set_ls)
    from first [OF this]
    show "\<exists>pre f post. fs = pre @ f # post \<and> eligible f \<and> l = league_entry f \<and>
        (\<forall>g \<in> set pre. eligible g \<longrightarrow> league_key B g \<noteq> league_key B f)" .
  qed
  have c0: "\<exists>l \<in> set ls. entry_key B l = league_key B f"
    if "f \<in> set fs" "eligible f" for f
  proof -
    from collect_complete [OF m that] obtain k where k: "league_key B f = Inr k" "k \<in> fst ` set m"
      by blast
    then obtain q where q: "q \<in> set m" "fst q = k" by auto
    with ek have "entry_key B (snd q) = Inr k" by auto
    moreover from q(1) have "snd q \<in> set ls" by (simp add: set_ls)
    ultimately show ?thesis using k(1) by auto
  qed
  have c: "\<forall>f \<in> set fs. eligible f \<longrightarrow> (\<exists>l \<in> set ls. entry_key B l = league_key B f)"
    using c0 by simp
  show ?thesis
    by (intro exI [of _ ls] conjI) (fact l s t e d f c)+
qed


theorem leagues_dedup_sorted_witness:
  "consistent (localeCompare sample_builtins) \<and>
   printable sample_builtins la_liga \<and> printable sample_builtins premier_league \<and>
   printable sample_builtins premier_league_again \<and> printable sample_builtins world_cup \<and>
   \<not> eligible no_league \<and>
   empty_first (localeCompare sample_builtins) \<and>
   leagues_of sample_builtins day_fixtures =
     Inr [league_entry world_cup, league_entry premier_league, league_entry la_liga] \<and>
   sorted_wrt (ordered sample_builtins)
     [league_entry world_cup, league_entry premier_league, league_entry la_liga] \<and>
   distinct (map (\<lambda>l. (getprop l ''id'', getprop l ''season''))
     [league_entry world_cup, league_entry premier_league, league_entry la_liga]) \<and>
   text_of sample_builtins (league_entry world_cup) ''country'' = [] \<and>
   getprop (league_entry premier_league) ''name'' = JStr ''Premier League'' \<and>
   getprop (league_entry premier_league) ''country'' = JStr ''England''"
proof -
  have p: "printable sample_builtins la_liga" "printable sample_builtins premier_league"
    "printable sample_builtins premier_league_again" "printable sample_builtins world_cup"
    by (simp_all add: printable_def league_keys sort_texts returns_def)
  have q: "\<forall>f \<in> set day_fixtures. eligible f \<longrightarrow> printable sample_builtins f"
    using p by (simp add: day_fixtures_def eligible_sample)
  from leagues_dedup_sorted [OF sample_consistent q]
  obtain ls where ls: "leagues_of sample_builtins day_fixtures = Inr ls"
    "sorted_wrt (ordered sample_builtins) ls"
    "distinct (map (\<lambda>l. (getprop l ''id'', getprop l ''season'')) ls)"
    by blast
  from ls(1) have e: "ls = [league_entry world_cup, league_entry premier_league, league_entry la_liga]"
    by (simp only: leagues_sample sum.inject)
  have t: "text_of sample_builtins (league_entry world_cup) ''country'' = []"
    by (simp add: text_of_def sort_texts)
  have g: "getprop (league_entry premier_league) ''name'' = JStr ''Premier League''"
    "getprop (league_entry premier_league) ''country'' = JStr ''England''"
    by (simp_all add: league_entry_def premier_league_def league_fixture_simps opt_def nullish_def)
  show ?thesis
    using sample_consistent p eligible_sample(5) sample_empty_first leagues_sample ls(2,3) t g
    unfolding e by blast
qed

section \<open>Properties of the matches of a day\<close>

text \<open>
  C10. When the query parameter \<open>league\<close> is falsy, or its number is \<open>NaN\<close> or 0,
  the handler answers and changes the cache as for a request without the parameter: the
  key of the cache is \<open>"D_" + day\<close> for the lookup and for the entry stored, the
  matches are the entries of all the fixtures fetched, and \<open>meta.leagueFilter\<close> is
  \<open>null\<close>.
\<close>

theorem day_filter_falsy:
  "\<not> truthy q \<or> Number B q = Inr NaN \<or> Number B q = Inr (Fin 0) \<longrightarrow>
     day_handler B net day q t1 t2 c = day_handler B net day JUndefined t1 t2 c \<and>
     day_handler B net day q t1 t2 c =
       Inr (case cache_get Day (''D_'' @ day) t1 c of
              (hit, c1) \<Rightarrow>
                if truthy hit then (json hit, c1)
                else (case andThen (fst (fetchFixturesForDay B net day))
                             (\<lambda>fixtures. andThen (elements fixtures) (Array_map (match_entry B))) of
                        Inl e \<Rightarrow> (failed ''day-failed'' e, c1)
                      | Inr out \<Rightarrow>
                          (json (JObj [(''date'', JStr day), (''matches'', JArr out),
                                       (''meta'', JObj [(''leagueFilter'', JNull)])]),
                           cache_set Day (''D_'' @ day)
                             (JObj [(''date'', JStr day), (''matches'', JArr out),
                                    (''meta'', JObj [(''leagueFilter'', JNull)])]) t2 c1)))"
proof -
  have k: "day_handler B net day q t1 t2 c =
       Inr (case cache_get Day (''D_'' @ day) t1 c of
              (hit, c1) \<Rightarrow>
                if truthy hit then (json hit, c1)
                else (case andThen (fst (fetchFixturesForDay B net day))
                             (\<lambda>fixtures. andThen (elements fixtures) (Array_map (match_entry B))) of
                        Inl e \<Rightarrow> (failed ''day-failed'' e, c1)
                      | Inr out \<Rightarrow>
                          (json (JObj [(''date'', JStr day), (''matches'', JArr out),
                                       (''meta'', JObj [(''leagueFilter'', JNull)])]),
                           cache_set Day (''D_'' @ day)
                             (JObj [(''date'', JStr day), (''matches'', JArr out),
                                    (''meta'', JObj [(''leagueFilter'', JNull)])]) t2 c1)))"
    if "\<exists>L. league_filter B q = Inr L \<and> \<not> truthy L" for q
  proof -
    from that obtain L where L: "league_filter B q = Inr L" "\<not> truthy L" by blast
    show ?thesis
      using L(2)
      by (simp add: day_handler_def L(1) andThen_def day_key_def day_cached_def day_miss_def
            day_built_def day_matches_def day_payload_def js_or_def
            split: prod.splits sum.splits)
  qed
  have u: "\<exists>L. league_filter B JUndefined = Inr L \<and> \<not> truthy L"
    by (simp add: league_filter_def)
  have f: "\<exists>L. league_filter B q = Inr L \<and> \<not> truthy L"
    if "\<not> truthy q \<or> Number B q = Inr NaN \<or> Number B q = Inr (Fin 0)"
    using that by (auto simp add: league_filter_def andThen_def)
  show ?thesis
    using k [OF u] k [OF f] by simp
qed

lemma n2s_200: "NumberToString sample_builtins (Fin 200) = ''200''"
  by (simp add: sample_builtins_def nat_string.simps digit_def char_of_def)

theorem day_filter_falsy_witness:
  "Number sample_builtins (JStr ''0'') = Inr (Fin 0) \<and>
   Number sample_builtins (JStr ''abc'') = Inr NaN \<and>
   day_handler sample_builtins net_day ''2024-05-01'' (JStr ''0'') 0 0 empty_cache =
     day_handler sample_builtins net_day ''2024-05-01'' JUndefined 0 0 empty_cache \<and>
   day_handler sample_builtins net_day ''2024-05-01'' (JStr ''abc'') 0 0 empty_cache =
     day_handler sample_builtins net_day ''2024-05-01'' JUndefined 0 0 empty_cache \<and>
   (case day_handler sample_builtins net_day ''2024-05-01'' (JStr ''0'') 0 0 empty_cache of
      Inl e \<Rightarrow> False
    | Inr r \<Rightarrow>
        path (body (fst r)) [''meta'', ''leagueFilter''] = JNull \<and>
        path (body (fst r)) [''matches'', ''length''] = JNum (Fin 2) \<and>
        map_option data (day_cache (snd r) ''D_2024-05-01'') = Some (body (fst r)))"
proof -
  have n: "Number sample_builtins (JStr ''0'') = Inr (Fin 0)"
    "Number sample_builtins (JStr ''abc'') = Inr NaN"
    by (simp_all add: sample_builtins_def digit_of_def)
  have f: "fst (fetchFixturesForDay sample_builtins net_day ''2024-05-01'') =
             Inr (JArr [fixture_100, fixture_200])"
    by (simp add: fetchFixturesForDay_def net_day_def answer_def js_eval Let_def)
  note a = day_filter_falsy [of "JStr ''0''" sample_builtins net_day "''2024-05-01''" 0 0 empty_cache]
  note b = day_filter_falsy [of "JStr ''abc''" sample_builtins net_day "''2024-05-01''" 0 0 empty_cache]
  have a1: "day_handler sample_builtins net_day ''2024-05-01'' (JStr ''0'') 0 0 empty_cache =
     day_handler sample_builtins net_day ''2024-05-01'' JUndefined 0 0 empty_cache"
    using a n by blast
  have b1: "day_handler sample_builtins net_day ''2024-05-01'' (JStr ''abc'') 0 0 empty_cache =
     day_handler sample_builtins net_day ''2024-05-01'' JUndefined 0 0 empty_cache"
    using b n by blast
  have a2: "day_handler sample_builtins net_day ''2024-05-01'' (JStr ''0'') 0 0 empty_cache =
       Inr (case cache_get Day (''D_'' @ ''2024-05-01'') 0 empty_cache of
              (hit, c1) \<Rightarrow>
                if truthy hit then (json hit, c1)
                else (case andThen (fst (fetchFixturesForDay sample_builtins net_day ''2024-05-01''))
                             (\<lambda>fixtures. andThen (elements fixtures) (Array_map (match_entry sample_builtins))) of
                        Inl e \<Rightarrow> (failed ''day-failed'' e, c1)
                      | Inr out \<Rightarrow>
                          (json (JObj [(''date'', JStr ''2024-05-01''), (''matches'', JArr out),
                                       (''meta'', JObj [(''leagueFilter'', JNull)])]),
                           cache_set Day (''D_'' @ ''2024-05-01'')
                             (JObj [(''date'', JStr ''2024-05-01''), (''matches'', JArr out),
                                    (''meta'', JObj [(''leagueFilter'', JNull)])]) 0 c1)))"
    using a n by blast
  have "\<exists>x y. andThen (Inr (JArr [fixture_100, fixture_200]))
          (\<lambda>fixtures. andThen (elements fixtures) (Array_map (match_entry sample_builtins))) = Inr [x, y]"
    by (simp add: match_entry_def andThen_def fixture_100_def fixture_200_def js_eval n2s_sample n2s_200)
  then obtain x y where m: "andThen (Inr (JArr [fixture_100, fixture_200]))
          (\<lambda>fixtures. andThen (elements fixtures) (Array_map (match_entry sample_builtins))) = Inr [x, y]"
    by blast
  have a3: "(case day_handler sample_builtins net_day ''2024-05-01'' (JStr ''0'') 0 0 empty_cache of
      Inl e \<Rightarrow> False
    | Inr r \<Rightarrow>
        path (body (fst r)) [''meta'', ''leagueFilter''] = JNull \<and>
        path (body (fst r)) [''matches'', ''length''] = JNum (Fin 2) \<and>
        map_option data (day_cache (snd r) ''D_2024-05-01'') = Some (body (fst r)))"
    by (simp only: a2 f m) (simp add: cache_eval json_def js_eval)
  show ?thesis
    using n a1 b1 a3 by blast
qed


section \<open>Properties of the details of a fixture\<close>

lemma first_call:
  "details_handler net_details ''7'' 0 0 0 0 empty_cache =
     (json (details_payload (JArr [JObj [(''team'', JObj [(''id'', JNum (Fin 33))])]]) (JBool True)),
      cache_set Lineups ''7'' (JBool True) 0
        (cache_set Injuries ''7'' (JArr [JObj [(''team'', JObj [(''id'', JNum (Fin 33))])]]) 0 empty_cache))"
  by (simp add: details_handler_def details_lookup_def details_miss_def fetch_injuries_def
      fetch_lineups_def net_details_def js_eval cache_eval)

text \<open>
  C2. The first request for the details of fixture 7 fills both caches at the clock
  reading 0. The second request reads the clock as 1800000 for the injuries (the entry
  is exactly as old as its time to live: fresh) and as 1800001 for the line-ups (stale:
  \<open>getCache\<close> answers \<open>null\<close>). Line 184 takes \<open>null !== undefined\<close> for a hit:
  the answer has the cached injuries and \<open>lineupsConfirmed: null\<close>, and nothing is
  fetched.
\<close>

theorem details_cached_null:
  "fst (details_handler net_details ''7'' 1800000 1800001 1800002 1800003
          (snd (details_handler net_details ''7'' 0 0 0 0 empty_cache))) =
   json (details_payload (JArr [JObj [(''team'', JObj [(''id'', JNum (Fin 33))])]]) JNull)"
  by (simp add: first_call) (simp add: details_handler_def details_lookup_def cache_eval)

section \<open>Properties of the prediction\<close>

subsection \<open>Failures of the upstream requests\<close>

text \<open>
  C1. The provider knows fixture 100 and fails on the request for the statistics of the
  home team: \<open>predict\<close> answers the status 500 with the error \<open>predict-failed\<close>, not
  a prediction.
\<close>

theorem predict_stats_failure:
  "predict sample_builtins net_stats_down ''100'' 0 0 0 0 empty_cache =
     (\<lparr> status = 500, body = JObj [(''error'', JStr ''predict-failed''),
                                    (''detail'', JStr ''Request failed with status code 500'')] \<rparr>,
      empty_cache)"
  by (simp add: predict_eval net_stats_down_def answer_def fixture_100_def js_eval n2s_sample
        cache_eval failed_def)

subsection \<open>Expected goals\<close>

text \<open>
  C6, as amended. Each of the four statistics is \<open>Number\<close> of its field when that is
  a number other than \<open>NaN\<close> and 0, and the fallback 1.2, 1.0, 1.1 or 1.1 (home for,
  home against, away for, away against) when it is \<open>NaN\<close> or 0: the fallback stands
  for a field that is missing or not numeric, and also for a field that holds 0. The
  expected goals are the halves of the sums of the home goals for and the away goals
  against, and of the away goals for and the home goals against. A field whose
  conversion throws fails the prediction. With the statistics 2.0 and 1.0 at home, 1.0
  and 1.0 away, and no injury, the expected goals are 1.5 and 1.0.
\<close>

theorem expected_goals:
  "(Number B (path H [''goals'', ''for'', ''average'', ''home'']) = Inr n1 \<longrightarrow>
      hGF B H = Inr (if n1 = NaN \<or> n1 = Fin 0 then lit B 1.2 else n1)) \<and>
   (Number B (path H [''goals'', ''against'', ''average'', ''home'']) = Inr n2 \<longrightarrow>
      hGA B H = Inr (if n2 = NaN \<or> n2 = Fin 0 then Fin 1 else n2)) \<and>
   (Number B (path A [''goals'', ''for'', ''average'', ''away'']) = Inr n3 \<longrightarrow>
      aGF B A = Inr (if n3 = NaN \<or> n3 = Fin 0 then lit B 1.1 else n3)) \<and>
   (Number B (path A [''goals'', ''against'', ''average'', ''away'']) = Inr n4 \<longrightarrow>
      aGA B A = Inr (if n4 = NaN \<or> n4 = Fin 0 then lit B 1.1 else n4)) \<and>
   (hGF B H = Inr x1 \<and> hGA B H = Inr x2 \<and> aGF B A = Inr x3 \<and> aGA B A = Inr x4 \<longrightarrow>
      expected B H A = Inr (divd B (add B x1 x4) (Fin 2), divd B (add B x3 x2) (Fin 2))) \<and>
   (Number B (path H [''goals'', ''for'', ''average'', ''home'']) = Inl e \<or>
    Number B (path H [''goals'', ''against'', ''average'', ''home'']) = Inl e \<or>
    Number B (path A [''goals'', ''for'', ''average'', ''away'']) = Inl e \<or>
    Number B (path A [''goals'', ''against'', ''average'', ''away'']) = Inl e \<longrightarrow>
      (\<exists>e'. predict_compute B net f leagueId season homeId awayId H A = failed ''predict-failed'' e')) \<and>
   (rounding (fl B) \<longrightarrow>
      expected B stats_home stats_away = Inr (Fin 1.5, Fin 1) \<and>
      adjust B (Fin 1.5) (Fin 0) = Fin 1.5 \<and> adjust B (Fin 1) (Fin 0) = Fin 1)"
proof -
  have num: "\<And>n d. num_or n d = (if n = NaN \<or> n = Fin 0 then d else n)"
    subgoal for n d by (cases n) (simp_all add: num_or_def)
    done
  have ex: "rounding (fl B) \<Longrightarrow> expected B stats_home stats_away = Inr (Fin 1.5, Fin 1)"
    by (simp add: expected_def hGF_def hGA_def aGF_def aGA_def num_or_def stats_home_def
          stats_away_def js_eval andThen_def lambdaHome_def lambdaAway_def dbl_small rounding_small)
  have lit: "rounding (fl B) \<Longrightarrow> fl B (1 / 10) \<le> 1"
    using rounding_mono [of "fl B" "1 / 10" 1] by (simp add: rounding_small)
  have adj: "rounding (fl B) \<Longrightarrow> adjust B (Fin 1.5) (Fin 0) = Fin 1.5 \<and> adjust B (Fin 1) (Fin 0) = Fin 1"
    using lit by (simp add: adjust_def lit_def dbl_small rounding_small)
  have thrown: "\<exists>e'. predict_compute B net f leagueId season homeId awayId H A = failed ''predict-failed'' e'"
    if "Number B (path H [''goals'', ''for'', ''average'', ''home'']) = Inl e \<or>
        Number B (path H [''goals'', ''against'', ''average'', ''home'']) = Inl e \<or>
        Number B (path A [''goals'', ''for'', ''average'', ''away'']) = Inl e \<or>
        Number B (path A [''goals'', ''against'', ''average'', ''away'']) = Inl e"
  proof -
    have "\<exists>e'. expected B H A = Inl e'"
      using that
      by (auto simp add: expected_def hGF_def hGA_def aGF_def aGA_def andThen_def split: sum.splits)
    thus ?thesis by (auto simp add: predict_compute_def)
  qed
  show ?thesis
    using ex adj thrown
    by (simp add: hGF_def hGA_def aGF_def aGA_def num andThen_def expected_def lambdaHome_def
          lambdaAway_def)
qed

lemma ais_none:
  "ais sample_builtins net_no_injuries fixture_100 (JNum (Fin 33)) (JNum (Fin 34)) = (Fin 0, Fin 0)"
  by (simp add: ais_def ais_of_response_def ais_of_groups_def net_no_injuries_simps fixture_100_simps
        answer_def answer_simps js_or_def n2s_sample imp_def arr_length_def Object_prototype_def
        andThen_def lit_def fl_sample dbl_small)

lemma toFixed_examples:
  "toFixed sample_builtins 2 (Fin (3 / 2)) = Fin (3 / 2)"
  "toFixed sample_builtins 2 (Fin 1) = Fin 1"
  "toFixed sample_builtins 2 (Fin 0) = Fin 0"
  by (simp_all add: fl_sample)

theorem expected_goals_witness:
  "hGF sample_builtins JUndefined = Inr (Fin 1.2) \<and> hGA sample_builtins JUndefined = Inr (Fin 1) \<and>
   aGF sample_builtins JUndefined = Inr (Fin 1.1) \<and> aGA sample_builtins JUndefined = Inr (Fin 1.1) \<and>
   expected sample_builtins JUndefined JUndefined = Inr (Fin 1.15, Fin 1.05) \<and>
   rounding (fl sample_builtins) \<and>
   expected sample_builtins stats_home stats_away = Inr (Fin 1.5, Fin 1) \<and>
   path (body (fst (predict sample_builtins net_no_injuries ''100'' 0 0 0 0 empty_cache)))
     [''prob'', ''lambdaHome''] = JNum (Fin 1.5) \<and>
   path (body (fst (predict sample_builtins net_no_injuries ''100'' 0 0 0 0 empty_cache)))
     [''prob'', ''lambdaAway''] = JNum (Fin 1.0) \<and>
   status (fst (predict sample_builtins net_no_injuries ''100'' 0 0 0 0 empty_cache)) = 200"
proof -
  have r: "rounding (fl sample_builtins)"
    by (simp add: fl_sample rounding_id)
  note g = expected_goals [of sample_builtins stats_home NaN NaN stats_away NaN NaN
      "Fin 2" "Fin 1" "Fin 1" "Fin 1" TypeError]
  have e0: "expected sample_builtins stats_home stats_away = Inr (Fin 1.5, Fin 1)"
    using g r by blast
  have e1: "adjust sample_builtins (Fin 1.5) (Fin 0) = Fin 1.5"
    using g r by blast
  have e2: "adjust sample_builtins (Fin 1) (Fin 0) = Fin 1"
    using g r by blast
  note u = expected_goals [of sample_builtins JUndefined NaN NaN JUndefined NaN NaN
      "Fin 1.2" "Fin 1" "Fin 1.1" "Fin 1.1" TypeError]
  have d: "hGF sample_builtins JUndefined = Inr (Fin 1.2)" "hGA sample_builtins JUndefined = Inr (Fin 1)"
    "aGF sample_builtins JUndefined = Inr (Fin 1.1)" "aGA sample_builtins JUndefined = Inr (Fin 1.1)"
    using u by (simp_all (no_asm_simp) add: path_undefined lit_def fl_sample)
  have d5: "expected sample_builtins JUndefined JUndefined = Inr (Fin 1.15, Fin 1.05)"
    using u d by (simp add: fl_sample dbl_small)
  have p: "fst (predict sample_builtins net_no_injuries ''100'' 0 0 0 0 empty_cache) =
        (case expected sample_builtins stats_home stats_away of
           Inl e \<Rightarrow> failed ''predict-failed'' e
         | Inr l \<Rightarrow> prediction sample_builtins fixture_100 (JNum (Fin 39)) (JNum (Fin 2023))
             (adjust sample_builtins (fst l) (Fin 0)) (adjust sample_builtins (snd l) (Fin 0))
             (Fin 0, Fin 0))"
    by (simp add: predict_eval predict_compute_def ais_none net_no_injuries_simps fixture_100_simps
          answer_def answer_simps n2s_sample cache_eval split: sum.splits)
  have q: "fst (predict sample_builtins net_no_injuries ''100'' 0 0 0 0 empty_cache) =
        prediction sample_builtins fixture_100 (JNum (Fin 39)) (JNum (Fin 2023))
          (Fin 1.5) (Fin 1) (Fin 0, Fin 0)"
    by (simp only: p e0 e1 e2 sum.case fst_conv snd_conv)
  show ?thesis
    by (simp only: q e0 d d5 r) (simp add: prediction_def prob_object_def json_def fixture_100_simps
          toFixed_examples fl_sample path_def opt_def nullish_def andThen_def n2s_sample split: prod.splits)
qed

text \<open>
  C6, as stated, fails on a home team whose average of goals for at home is 0: the
  field is there, and the expected goals of the home side are \<open>(1.2 + 1.0) / 2\<close>, not
  \<open>(0 + 1.0) / 2\<close>.
\<close>

theorem expected_goals_counterexample:
  "path stats_home_zero [''goals'', ''for'', ''average'', ''home''] = JNum (Fin 0) \<and>
   path stats_away [''goals'', ''against'', ''average'', ''away''] = JNum (Fin 1) \<and>
   expected sample_builtins stats_home_zero stats_away = Inr (Fin 1.1, Fin 1) \<and>
   Fin 1.1 \<noteq> Fin ((0 + 1) / 2)"
  by (simp add: expected_def hGF_def hGA_def aGF_def aGA_def num_or_def stats_home_zero_def
        stats_away_def js_eval andThen_def lambdaHome_def lambdaAway_def dbl_small lit_def fl_sample)

subsection \<open>Injury impact\<close>

lemma filed_simps:
  "filed B k [] = []"
  "filed B k (it # its) =
     (if truthy (path it [''team'', ''id'']) \<and> toStr B (path it [''team'', ''id'']) = Inr k
      then it # filed B k its else filed B k its)"
  by (simp_all add: filed_def)

lemma group_injuries_records:
  "group_injuries B its by0 = Inr by \<Longrightarrow>
     by k = (case by0 k of
               Some arr \<Rightarrow> Some (arr @ filed B k its)
             | None \<Rightarrow> if filed B k its = [] then None else Some (filed B k its))"
proof (induction its arbitrary: by0)
  case Nil
  then show ?case by (simp add: filed_simps split: option.splits)
next
  case (Cons it its)
  show ?case
  proof (cases "truthy (path it [''team'', ''id''])")
    case False
    with Cons.prems have g: "group_injuries B its by0 = Inr by" by simp
    from Cons.IH [OF g] False show ?thesis by (simp add: filed_simps split: option.splits)
  next
    case True
    from True Cons.prems obtain k' by1 where
      k': "toStr B (path it [''team'', ''id'']) = Inr k'" and
      f: "file_injury it k' by0 = Inr by1" and
      g: "group_injuries B its by1 = Inr by"
      by (auto simp add: andThen_def split: sum.splits)
    from f have by1: "by1 = by0(k' \<mapsto> (case by0 k' of Some arr \<Rightarrow> arr @ [it] | None \<Rightarrow> [it]))"
      by (auto simp add: file_injury_def split: option.splits if_splits)
    show ?thesis
    proof (cases "k = k'")
      case True
      with Cons.IH [OF g] by1 k' \<open>truthy (path it [''team'', ''id''])\<close> show ?thesis
        by (simp add: filed_simps split: option.splits)
    next
      case False
      with Cons.IH [OF g] by1 k' show ?thesis
        by (auto simp add: filed_simps split: option.splits)
    qed
  qed
qed

lemma groupable_simps:
  "groupable B [] = True"
  "groupable B (it # its) =
     ((truthy (path it [''team'', ''id'']) \<longrightarrow>
        (case toStr B (path it [''team'', ''id'']) of Inl e \<Rightarrow> False | Inr k \<Rightarrow> \<not> inherited k)) \<and>
      groupable B its)"
  by (simp_all add: groupable_def)

lemma group_injuries_groupable:
  "(\<forall>k. inherited k \<longrightarrow> by0 k = None) \<Longrightarrow>
   (\<exists>by. group_injuries B its by0 = Inr by) = groupable B its"
proof (induction its arbitrary: by0)
  case Nil
  show ?case by (simp add: groupable_simps)
next
  case (Cons it its)
  show ?case
  proof (cases "truthy (path it [''team'', ''id''])")
    case False
    with Cons.IH [OF Cons.prems] show ?thesis by (simp add: groupable_simps)
  next
    case True
    show ?thesis
    proof (cases "toStr B (path it [''team'', ''id''])")
      case (Inl e)
      with True show ?thesis by (simp add: groupable_simps andThen_def)
    next
      case (Inr k)
      show ?thesis
      proof (cases "inherited k")
        case True
        with Cons.prems have "by0 k = None" by blast
        with True Inr \<open>truthy (path it [''team'', ''id''])\<close> show ?thesis
          by (simp add: groupable_simps andThen_def file_injury_def inherited_def)
      next
        case False
        define by1 where "by1 = by0(k \<mapsto> (case by0 k of Some arr \<Rightarrow> arr @ [it] | None \<Rightarrow> [it]))"
        have f: "file_injury it k by0 = Inr by1"
          using False by (simp add: file_injury_def by1_def inherited_def split: option.splits)
        have n: "\<forall>k'. inherited k' \<longrightarrow> by1 k' = None"
          using Cons.prems False by (auto simp add: by1_def)
        from Cons.IH [OF n] True Inr False f show ?thesis
          by (simp add: groupable_simps andThen_def)
      qed
    qed
  qed
qed

lemma arr_length_counted:
  assumes "group_injuries B resp Map.empty = Inr by"
  shows "arr_length by k = counted B resp k"
  using group_injuries_records [OF assms, of k]
  by (simp add: arr_length_def counted_def)

lemma counted_nat: "\<exists>n :: nat. counted B resp k = real n"
proof (cases "filed B k resp = []")
  case False
  thus ?thesis by (auto simp add: counted_def)
next
  case True
  have "\<exists>n :: nat. (case map_of Object_prototype k of Some n \<Rightarrow> n | None \<Rightarrow> 0) = real n"
    by (simp add: Object_prototype_def)
  with True show ?thesis by (simp add: counted_def)
qed

lemma counted_filed:
  assumes "\<not> inherited k" shows "counted B resp k = real (length (filed B k resp))"
proof -
  have "map_of Object_prototype k = None"
    using assms by (simp add: inherited_def map_of_eq_None_iff)
  thus ?thesis by (simp add: counted_def)
qed

lemma impact_bounds:
  assumes r: "rounding (fl B)"
  shows "js_le (Fin 0) (mul B (Fin (real n)) (lit B 0.08)) \<and>
         js_lt (mul B (Fin (real n)) (lit B 0.08)) (Fin 1) = (n \<le> 12)"
proof -
  define c where "c = fl B 0.08"
  have c: "799 / 10000 \<le> c" "c \<le> 801 / 10000"
    using rounding_near [OF r, of "0.08"] by (simp_all add: c_def)
  have m: "mul B (Fin (real n)) (lit B 0.08) = dbl B (real n * c)"
    by (simp add: lit_def c_def)
  show ?thesis
  proof (cases "n \<le> 12")
    case True
    hence "real n \<le> 12" by simp
    hence "real n * c \<le> 12 * (801 / 10000)"
      using c by (intro mult_mono) simp_all
    hence u: "real n * c \<le> 97 / 100" by simp
    have l: "0 \<le> real n * c" using c by simp
    have t: "(1 :: real) \<le> 2 ^ 1000" by simp
    from u l t have d: "dbl B (real n * c) = Fin (fl B (real n * c))"
      using threshold_large by (simp add: dbl_def)
    have "fl B 0 \<le> fl B (real n * c)"
      by (rule rounding_mono [OF r l])
    hence p: "0 \<le> fl B (real n * c)" by (simp add: rounding_zero [OF r])
    have "fl B (real n * c) < 1"
      using rounding_near(2) [OF r l] u by linarith
    with p True show ?thesis by (simp only: m d) (simp add: js_lt_def)
  next
    case False
    hence "13 \<le> real n" by simp
    hence "13 * (799 / 10000) \<le> real n * c"
      using c by (intro mult_mono) simp_all
    hence u: "103 / 100 \<le> real n * c" by simp
    hence l: "0 \<le> real n * c" by simp
    have "1 < fl B (real n * c)"
      using rounding_near(1) [OF r l] u by linarith
    hence "js_le (Fin 0) (dbl B (real n * c)) \<and> \<not> js_lt (dbl B (real n * c)) (Fin 1)"
      using l threshold_pos by (simp add: dbl_def js_lt_def)
    with False show ?thesis by (simp only: m)
  qed
qed

lemma adjust_floor:
  assumes r: "rounding (fl B)" and x: "0 \<le> x" and y: "1 \<le> y" "y \<le> 2 ^ 1000"
  shows "adjust B (Fin x) (Fin y) = lit B 0.1"
proof -
  have t: "(2 :: real) ^ 1000 < overflow_threshold" by (rule threshold_large)
  have s: "sub B (Fin 1) (Fin y) = Fin (fl B (1 - y))"
    using y t by (simp add: dbl_def)
  have "fl B (1 - y) \<le> fl B 0"
    using y by (intro rounding_mono [OF r]) simp
  hence z: "fl B (1 - y) \<le> 0" by (simp add: rounding_zero [OF r])
  hence p: "x * fl B (1 - y) \<le> 0"
    using x by (simp add: mult_nonneg_nonpos)
  have "fl B (x * fl B (1 - y)) \<le> fl B 0"
    by (rule rounding_mono [OF r p])
  hence q: "fl B (x * fl B (1 - y)) \<le> 0" by (simp add: rounding_zero [OF r])
  have l: "0 < fl B 0.1"
    using rounding_near(1) [OF r, of "0.1"] by simp
  have "Math_max (Fin (fl B 0.1)) (dbl B (x * fl B (1 - y))) = Fin (fl B 0.1)"
    using p q l threshold_pos by (simp add: dbl_def)
  moreover have "mul B (Fin x) (sub B (Fin 1) (Fin y)) = dbl B (x * fl B (1 - y))"
    by (simp only: s mul.simps)
  ultimately show ?thesis by (simp only: adjust_def lit_def)
qed



lemma ais_nonneg:
  assumes r: "rounding (fl B)"
  shows "js_le (Fin 0) (fst (ais B net f homeId awayId)) \<and> js_le (Fin 0) (snd (ais B net f homeId awayId))"
proof -
  have i: "js_le (Fin 0) (imp B g0 k)" for g0 k
  proof -
    have "\<exists>n :: nat. arr_length g0 k = real n"
      by (cases "g0 k") (simp_all add: arr_length_def Object_prototype_def)
    then obtain n :: nat where "arr_length g0 k = real n" by blast
    with impact_bounds [OF r, of n] show ?thesis by (simp only: imp_def)
  qed
  have "js_le (Fin 0) (fst (ais_of_groups B g0 homeId awayId)) \<and>
        js_le (Fin 0) (snd (ais_of_groups B g0 homeId awayId))" for g0
    by (simp add: ais_of_groups_def i split: sum.splits)
  hence "js_le (Fin 0) (fst (ais_of_response B injRes homeId awayId)) \<and>
         js_le (Fin 0) (snd (ais_of_response B injRes homeId awayId))" for injRes
    by (simp add: ais_of_response_def split: sum.splits)
  thus ?thesis
    by (simp add: ais_def split: sum.splits)
qed

lemma ais_grouped:
  assumes "dot (getprop f ''fixture'') ''id'' = Inr fid"
    "net (''/injuries'', [(''fixture'', fid)]) = Inr injRes"
    "iterate (response_or_empty injRes) = Inr resp"
  shows "ais B net f homeId awayId =
     (if \<not> groupable B resp then (Fin 0, Fin 0)
      else case toStr B homeId of
             Inl e \<Rightarrow> (Fin 0, Fin 0)
           | Inr kh \<Rightarrow>
               (mul B (Fin (counted B resp kh)) (lit B 0.08),
                case toStr B awayId of
                  Inl e \<Rightarrow> Fin 0
                | Inr ka \<Rightarrow> mul B (Fin (counted B resp ka)) (lit B 0.08)))"
proof (cases "groupable B resp")
  case False
  with group_injuries_groupable [of Map.empty B resp]
  have "\<not> (\<exists>g0. group_injuries B resp Map.empty = Inr g0)" by simp
  hence "\<exists>e. group_injuries B resp Map.empty = Inl e"
    by (cases "group_injuries B resp Map.empty") simp_all
  with False show ?thesis
    by (auto simp add: ais_def ais_of_response_def andThen_def assms)
next
  case True
  with group_injuries_groupable [of Map.empty B resp]
  obtain g0 where g: "group_injuries B resp Map.empty = Inr g0" by auto
  show ?thesis
    using True
    by (simp add: ais_def ais_of_response_def ais_of_groups_def andThen_def assms g imp_def
          arr_length_counted [OF g] split: sum.splits)
qed

text \<open>
  C3, as amended. Both impacts are 0 when \<open>f.fixture.id\<close> cannot be read, when the
  injuries request fails, when its response cannot be iterated, when the records cannot
  be grouped, and when the home id has no string; the away impact is 0 when the away id
  has none. Otherwise the impact of a side is the product of 0.08 and the count of its
  key: the number of records filed under the key, or for an inherited name the entry of
  the table. The impacts are never negative; an impact is below 1 exactly when the count
  is at most 12. The expected goals adjusted by line 265 are \<open>NaN\<close> or at least
  the literal 0.1, and they are this literal for an impact from 1 on.
\<close>

theorem injury_impact:
  "(dot (getprop f ''fixture'') ''id'' = Inl e \<longrightarrow> ais B net f homeId awayId = (Fin 0, Fin 0)) \<and>
   (dot (getprop f ''fixture'') ''id'' = Inr fid \<and>
    net (''/injuries'', [(''fixture'', fid)]) = Inl e \<longrightarrow>
      ais B net f homeId awayId = (Fin 0, Fin 0)) \<and>
   (dot (getprop f ''fixture'') ''id'' = Inr fid \<and>
    net (''/injuries'', [(''fixture'', fid)]) = Inr injRes \<and>
    iterate (response_or_empty injRes) = Inl e \<longrightarrow>
      ais B net f homeId awayId = (Fin 0, Fin 0)) \<and>
   (dot (getprop f ''fixture'') ''id'' = Inr fid \<and>
    net (''/injuries'', [(''fixture'', fid)]) = Inr injRes \<and>
    iterate (response_or_empty injRes) = Inr resp \<longrightarrow>
      ais B net f homeId awayId =
        (if \<not> groupable B resp then (Fin 0, Fin 0)
         else case toStr B homeId of
                Inl e \<Rightarrow> (Fin 0, Fin 0)
              | Inr kh \<Rightarrow>
                  (mul B (Fin (counted B resp kh)) (lit B 0.08),
                   case toStr B awayId of
                     Inl e \<Rightarrow> Fin 0
                   | Inr ka \<Rightarrow> mul B (Fin (counted B resp ka)) (lit B 0.08)))) \<and>
   (\<not> inherited k \<longrightarrow> counted B resp k = real (length (filed B k resp))) \<and>
   (rounding (fl B) \<longrightarrow>
      js_le (Fin 0) (fst (ais B net f homeId awayId)) \<and>
      js_le (Fin 0) (snd (ais B net f homeId awayId)) \<and>
      js_lt (mul B (Fin (counted B resp k)) (lit B 0.08)) (Fin 1) = (counted B resp k \<le> 12)) \<and>
   (adjust B l a = NaN \<or> js_le (lit B 0.1) (adjust B l a)) \<and>
   (rounding (fl B) \<and> 0 \<le> x \<and> 1 \<le> y \<and> y \<le> 2 ^ 1000 \<longrightarrow>
      adjust B (Fin x) (Fin y) = lit B 0.1)"
proof -
  have c1: "dot (getprop f ''fixture'') ''id'' = Inl e \<longrightarrow> ais B net f homeId awayId = (Fin 0, Fin 0)"
    by (simp add: ais_def andThen_def)
  have c2: "dot (getprop f ''fixture'') ''id'' = Inr fid \<and>
    net (''/injuries'', [(''fixture'', fid)]) = Inl e \<longrightarrow>
      ais B net f homeId awayId = (Fin 0, Fin 0)"
    by (simp add: ais_def andThen_def)
  have c3: "dot (getprop f ''fixture'') ''id'' = Inr fid \<and>
    net (''/injuries'', [(''fixture'', fid)]) = Inr injRes \<and>
    iterate (response_or_empty injRes) = Inl e \<longrightarrow>
      ais B net f homeId awayId = (Fin 0, Fin 0)"
    by (simp add: ais_def ais_of_response_def andThen_def)
  have c6: "js_lt (mul B (Fin (counted B resp k)) (lit B 0.08)) (Fin 1) = (counted B resp k \<le> 12)"
    if r: "rounding (fl B)"
  proof -
    obtain n :: nat where n: "counted B resp k = real n"
      using counted_nat by blast
    from impact_bounds [OF r, of n] show ?thesis
      by (simp only: n) simp
  qed
  have c7: "adjust B l a = NaN \<or> js_le (lit B 0.1) (adjust B l a)"
    unfolding adjust_def by (rule Math_max_floor)
  show ?thesis
    using c1 c2 c3 c6 c7 ais_grouped [of f fid net injRes resp B homeId awayId]
      counted_filed [of k B resp] ais_nonneg [of B net f homeId awayId]
      adjust_floor [of B x y]
    by blast
qed


lemma thirteen_simps:
  "filed sample_builtins ''33'' (thirteen (injury_of 33)) = thirteen (injury_of 33)"
  "filed sample_builtins ''34'' (thirteen (injury_of 33)) = []"
  "groupable sample_builtins (thirteen (injury_of 33))"
  "length (thirteen (injury_of 33)) = 13"
  by (simp_all add: filed_def groupable_def thirteen_def injury_of_def js_eval n2s_sample
        inherited_def Object_prototype_def)

lemma counted_13:
  "counted sample_builtins (thirteen (injury_of 33)) ''33'' = 13"
  "counted sample_builtins (thirteen (injury_of 33)) ''34'' = 0"
  by (simp_all add: counted_def thirteen_simps Object_prototype_def) (simp add: thirteen_def)

theorem injury_impact_witness:
  "dot (getprop fixture_100 ''fixture'') ''id'' = Inr (JNum (Fin 100)) \<and>
   net_injuries13 (''/injuries'', [(''fixture'', JNum (Fin 100))]) =
     Inr (JObj [(''data'', JObj [(''response'', JArr (thirteen (injury_of 33)))])]) \<and>
   iterate (response_or_empty (JObj [(''data'', JObj [(''response'', JArr (thirteen (injury_of 33)))])]))
     = Inr (thirteen (injury_of 33)) \<and>
   \<not> inherited ''33'' \<and> rounding (fl sample_builtins) \<and>
   ais sample_builtins net_injuries13 fixture_100 (JNum (Fin 33)) (JNum (Fin 34)) = (Fin 1.04, Fin 0) \<and>
   counted sample_builtins (thirteen (injury_of 33)) ''33'' = real (length (thirteen (injury_of 33))) \<and>
   \<not> js_lt (Fin 1.04) (Fin 1) \<and>
   (0 :: real) \<le> 1.5 \<and> (1 :: real) \<le> 1.04 \<and> (1.04 :: real) \<le> 2 ^ 1000 \<and>
   adjust sample_builtins (Fin 1.5) (Fin 1.04) = Fin 0.1"
proof -
  have h: "dot (getprop fixture_100 ''fixture'') ''id'' = Inr (JNum (Fin 100))"
    "net_injuries13 (''/injuries'', [(''fixture'', JNum (Fin 100))]) =
       Inr (JObj [(''data'', JObj [(''response'', JArr (thirteen (injury_of 33)))])])"
    "iterate (response_or_empty (JObj [(''data'', JObj [(''response'', JArr (thirteen (injury_of 33)))])]))
       = Inr (thirteen (injury_of 33))"
    by (simp_all add: fixture_100_simps net_injuries13_def answer_simps js_or_def)
  have i: "\<not> inherited ''33''"
    by (simp add: inherited_def Object_prototype_def)
  have r: "rounding (fl sample_builtins)"
    by (simp add: fl_sample rounding_id)
  have n: "(0 :: real) \<le> 1.5" "(1 :: real) \<le> 1.04" "(1.04 :: real) \<le> 2 ^ 1000"
    by simp_all
  note t = injury_impact [where B = sample_builtins and net = net_injuries13 and f = fixture_100
      and homeId = "JNum (Fin 33)" and awayId = "JNum (Fin 34)" and fid = "JNum (Fin 100)"
      and injRes = "JObj [(''data'', JObj [(''response'', JArr (thirteen (injury_of 33)))])]"
      and resp = "thirteen (injury_of 33)" and k = "''33''" and x = "1.5" and y = "1.04"]
  have a: "ais sample_builtins net_injuries13 fixture_100 (JNum (Fin 33)) (JNum (Fin 34)) =
        (if \<not> groupable sample_builtins (thirteen (injury_of 33)) then (Fin 0, Fin 0)
         else case toStr sample_builtins (JNum (Fin 33)) of
                Inl e \<Rightarrow> (Fin 0, Fin 0)
              | Inr kh \<Rightarrow>
                  (mul sample_builtins (Fin (counted sample_builtins (thirteen (injury_of 33)) kh))
                     (lit sample_builtins 0.08),
                   case toStr sample_builtins (JNum (Fin 34)) of
                     Inl e \<Rightarrow> Fin 0
                   | Inr ka \<Rightarrow> mul sample_builtins (Fin (counted sample_builtins (thirteen (injury_of 33)) ka))
                       (lit sample_builtins 0.08)))"
    using t h by blast
  have c: "counted sample_builtins (thirteen (injury_of 33)) ''33'' = real (length (thirteen (injury_of 33)))"
    using t i by (simp add: thirteen_simps)
  have l: "js_lt (mul sample_builtins (Fin (counted sample_builtins (thirteen (injury_of 33)) ''33''))
             (lit sample_builtins 0.08)) (Fin 1) =
           (counted sample_builtins (thirteen (injury_of 33)) ''33'' \<le> 12)"
    using t r by blast
  have d: "adjust sample_builtins (Fin 1.5) (Fin 1.04) = lit sample_builtins 0.1"
    using t r n by blast
  have a': "ais sample_builtins net_injuries13 fixture_100 (JNum (Fin 33)) (JNum (Fin 34)) = (Fin 1.04, Fin 0)"
    by (simp only: a) (simp add: thirteen_simps counted_13 n2s_sample lit_def fl_sample dbl_small)
  have l': "\<not> js_lt (Fin 1.04) (Fin 1)"
    using l by (simp add: counted_13 lit_def fl_sample dbl_small)
  have d': "adjust sample_builtins (Fin 1.5) (Fin 1.04) = Fin 0.1"
    using d by (simp add: lit_def fl_sample)
  show ?thesis
    using h i r a' c l' n d' by blast
qed

text \<open>
  C3, as stated, fails with 13 injury records of the home team: the impact is
  \<open>13 * 0.08 = 1.04\<close>.
\<close>

theorem injury_impact_counterexample:
  "ais sample_builtins net_injuries13 fixture_100 (JNum (Fin 33)) (JNum (Fin 34)) = (Fin 1.04, Fin 0) \<and>
   \<not> js_lt (Fin 1.04) (Fin 1)"
  by (simp add: ais_def ais_of_response_def ais_of_groups_def fixture_100_def net_injuries13_def
        thirteen_def injury_of_def js_eval n2s_sample Object_prototype_def imp_def arr_length_def
        file_injury_def andThen_def lit_def fl_sample dbl_small js_lt_def)


subsection \<open>The pick\<close>





end
